theory Spec2Isabelle
  imports Complex_Main
begin

section \<open>Errors and tensors\<close>

text \<open>
  The exceptions of \<^verbatim>\<open>discrepancies.py\<close>. The two constructors raise
  \<^verbatim>\<open>AssertionError\<close> (the \<^verbatim>\<open>assert\<close> on \<^verbatim>\<open>metric_type\<close>; the specification calls
  it ConfigurationError) and \<^verbatim>\<open>ImportError\<close> (the guard on the optional
  \<^verbatim>\<open>signatory\<close> import; the specification calls it DependencyMissingError). The tensor
  library raises \<^verbatim>\<open>RuntimeError\<close> on incompatible shapes, \<^verbatim>\<open>IndexError\<close> on a
  dimension out of range and \<^verbatim>\<open>TypeError\<close> on an operand that is no tensor. \<open>ShapeError\<close> is the name the specification gives to the
  failures of the native kernel.
\<close>

datatype error = AssertionError | ImportError | RuntimeError | IndexError | TypeError | ShapeError

definition bind_err :: "error + 'a \<Rightarrow> ('a \<Rightarrow> error + 'b) \<Rightarrow> error + 'b" where
  "bind_err r f = (case r of Inl e \<Rightarrow> Inl e | Inr x \<Rightarrow> f x)"

text \<open>
  A tensor is its shape and its elements in row-major order. Elements are real numbers:
  rounding, infinities and NaN of the floating-point types are not part of the model,
  and neither are strides (a tensor is the value it denotes).
\<close>

record tensor =
  shape :: "nat list"
  data :: "real list"

definition numel :: "tensor \<Rightarrow> nat" where
  "numel t = prod_list (shape t)"

definition wf_tensor :: "tensor \<Rightarrow> bool" where
  "wf_tensor t \<longleftrightarrow> length (data t) = prod_list (shape t)"

text \<open>\<^verbatim>\<open>rows k n xs\<close>: the first \<open>k\<close> consecutive blocks of \<open>n\<close> elements of \<open>xs\<close>.\<close>

fun rows :: "nat \<Rightarrow> nat \<Rightarrow> 'a list \<Rightarrow> 'a list list" where
  "rows 0 n xs = []"
| "rows (Suc k) n xs = take n xs # rows k n (drop n xs)"

section \<open>Tensor operations\<close>

text \<open>\<^verbatim>\<open>t.shape[:-2]\<close>: a slice never raises; it is empty for a tensor of rank below 2.\<close>

definition batch_dims :: "tensor \<Rightarrow> nat list" where
  "batch_dims t = take (length (shape t) - 2) (shape t)"

text \<open>\<^verbatim>\<open>t.size(d)\<close>, with negative \<open>d\<close> counting from the end.\<close>

definition size_at :: "tensor \<Rightarrow> int \<Rightarrow> error + nat" where
  "size_at t d =
     (let r = int (length (shape t))
      in if - r \<le> d \<and> d < r then Inr (shape t ! nat (if d < 0 then d + r else d))
         else Inl IndexError)"

text \<open>
  \<^verbatim>\<open>t.unsqueeze(d)\<close>: a dimension of size one at position \<open>d\<close>. The in-place
  \<^verbatim>\<open>unsqueeze_\<close> computes the same value.
\<close>

definition unsqueeze :: "int \<Rightarrow> tensor \<Rightarrow> error + tensor" where
  "unsqueeze d t =
     (let r = int (length (shape t))
      in if - (r + 1) \<le> d \<and> d \<le> r then
           (let k = nat (if d < 0 then d + r + 1 else d)
            in Inr (t\<lparr>shape := take k (shape t) @ [1] @ drop k (shape t)\<rparr>))
         else Inl IndexError)"

text \<open>
  \<^verbatim>\<open>t.expand(*sizes)\<close>: every dimension keeps its size or grows from size one, and new
  dimensions are added in front. \<open>expand_data s sizes xs\<close> repeats the elements, for a
  shape \<open>s\<close> already padded with ones to the rank of \<open>sizes\<close>.
\<close>

fun expand_data :: "nat list \<Rightarrow> nat list \<Rightarrow> 'a list \<Rightarrow> 'a list" where
  "expand_data (a # s) (b # sizes) xs =
     (if a = b then concat (map (expand_data s sizes) (rows a (prod_list s) xs))
      else concat (replicate b (expand_data s sizes xs)))"
| "expand_data _ _ xs = xs"

definition expand :: "nat list \<Rightarrow> tensor \<Rightarrow> error + tensor" where
  "expand sizes t =
     (let s = shape t; k = length sizes - length s
      in if length s \<le> length sizes \<and> list_all2 (\<lambda>a b. a = b \<or> a = 1) s (drop k sizes)
         then Inr \<lparr>shape = sizes, data = expand_data (replicate k 1 @ s) sizes (data t)\<rparr>
         else Inl RuntimeError)"

text \<open>
  \<^verbatim>\<open>torch.cat([a, b], dim=-1)\<close>. A tensor without dimensions cannot be concatenated, a
  tensor of shape \<open>(0,)\<close> is skipped, and otherwise the shapes must agree in every
  dimension but the last.
\<close>

definition cat_last :: "tensor \<Rightarrow> tensor \<Rightarrow> error + tensor" where
  "cat_last a b =
     (if shape a = [] \<or> shape b = [] then Inl RuntimeError
      else if shape a = [0] then Inr b
      else if shape b = [0] then Inr a
      else if butlast (shape a) = butlast (shape b) then
        (let n = prod_list (butlast (shape a))
         in Inr \<lparr>shape = butlast (shape a) @ [last (shape a) + last (shape b)],
                 data = concat (map (\<lambda>(x, y). x @ y)
                                    (zip (rows n (last (shape a)) (data a))
                                         (rows n (last (shape b)) (data b))))\<rparr>)
      else Inl RuntimeError)"

text \<open>
  \<^verbatim>\<open>t.view(-1, l, c)\<close>: the first size is inferred, which fails when \<open>l * c\<close> is zero or
  does not divide the number of elements. \<^verbatim>\<open>t.view(*sizes)\<close> keeps the number of
  elements.
\<close>

definition view_infer :: "tensor \<Rightarrow> nat \<Rightarrow> nat \<Rightarrow> error + tensor" where
  "view_infer t l c =
     (if l * c = 0 then Inl RuntimeError
      else if numel t mod (l * c) = 0 then Inr (t\<lparr>shape := [numel t div (l * c), l, c]\<rparr>)
      else Inl RuntimeError)"

definition view :: "tensor \<Rightarrow> nat list \<Rightarrow> error + tensor" where
  "view t sizes = (if prod_list sizes = numel t then Inr (t\<lparr>shape := sizes\<rparr>) else Inl RuntimeError)"

text \<open>
  \<^verbatim>\<open>a - b\<close> for operands of one shape, which is what \<^verbatim>\<open>forward\<close> subtracts: both have been
  expanded to the same sizes. Broadcasting of different shapes is not modelled.
\<close>

definition tensor_sub :: "tensor \<Rightarrow> tensor \<Rightarrow> error + tensor" where
  "tensor_sub a b =
     (if shape a = shape b then Inr \<lparr>shape = shape a, data = map (\<lambda>(x, y). x - y) (zip (data a) (data b))\<rparr>
      else Inl RuntimeError)"

text \<open>
  \<^verbatim>\<open>x @ m\<close> for a matrix \<open>m\<close>: every row of \<open>x\<close> (its last dimension) times the matrix.
  \<^verbatim>\<open>x * v\<close> for a vector \<open>v\<close>: elementwise along the last dimension, a dimension of size
  one being broadcast. The parameter has the rank the constructor gives it; other
  ranks are not modelled.
\<close>

definition row_times_matrix :: "real list \<Rightarrow> real list list \<Rightarrow> nat \<Rightarrow> real list" where
  "row_times_matrix x m n = map (\<lambda>j. sum_list (map (\<lambda>(xi, mi). xi * (mi ! j)) (zip x m))) [0..<n]"

definition matmul :: "tensor \<Rightarrow> tensor option \<Rightarrow> error + tensor" where
  "matmul x lin =
     (case lin of
        None \<Rightarrow> Inl TypeError
      | Some m \<Rightarrow>
          (case shape m of
             [k, n] \<Rightarrow>
               (if shape x = [] then Inl RuntimeError
                else if last (shape x) = k then
                  Inr \<lparr>shape = butlast (shape x) @ [n],
                       data = concat (map (\<lambda>r. row_times_matrix r (rows k n (data m)) n)
                                          (rows (prod_list (butlast (shape x))) k (data x)))\<rparr>
                else Inl RuntimeError)
           | _ \<Rightarrow> Inl RuntimeError))"

definition mul :: "tensor \<Rightarrow> tensor option \<Rightarrow> error + tensor" where
  "mul x lin =
     (case lin of
        None \<Rightarrow> Inl TypeError
      | Some v \<Rightarrow>
          (case shape v of
             [n] \<Rightarrow>
               (if shape x = [] then Inl RuntimeError
                else if last (shape x) = n then
                  Inr \<lparr>shape = shape x,
                       data = concat (map (\<lambda>r. map (\<lambda>(a, b). a * b) (zip r (data v)))
                                          (rows (prod_list (butlast (shape x))) n (data x)))\<rparr>
                else if n = 1 then
                  Inr \<lparr>shape = shape x, data = map (\<lambda>a. a * hd (data v)) (data x)\<rparr>
                else if last (shape x) = 1 then
                  Inr \<lparr>shape = butlast (shape x) @ [n],
                       data = concat (map (\<lambda>a. map (\<lambda>b. a * b) (data v)) (data x))\<rparr>
                else Inl RuntimeError)
           | _ \<Rightarrow> Inl RuntimeError))"

text \<open>The exponent \<^verbatim>\<open>p\<close> of the norm: a number, or \<^verbatim>\<open>float('inf')\<close>.\<close>

datatype pnum = Finite real | PosInf

text \<open>
  \<^verbatim>\<open>x.norm(p=p, dim=-1)\<close>: the p-norm of every row. For \<open>p = 0\<close> it counts the non-zero
  elements, for infinite \<open>p\<close> it is the largest absolute value, which does not exist
  for an empty row. The documented range of \<open>p\<close> is from one to infinity.
\<close>

definition vector_norm :: "pnum \<Rightarrow> real list \<Rightarrow> real" where
  "vector_norm pp xs =
     (case pp of
        PosInf \<Rightarrow> foldr max (map abs xs) 0
      | Finite q \<Rightarrow>
          (if q = 0 then real (length (filter (\<lambda>x. x \<noteq> 0) xs))
           else (sum_list (map (\<lambda>x. \<bar>x\<bar> powr q) xs)) powr (1 / q)))"

definition norm_last :: "pnum \<Rightarrow> tensor \<Rightarrow> error + tensor" where
  "norm_last pp x =
     (if shape x = [] then Inl IndexError
      else if pp = PosInf \<and> last (shape x) = 0 then Inl RuntimeError
      else Inr \<lparr>shape = butlast (shape x),
                data = map (vector_norm pp)
                           (rows (prod_list (butlast (shape x))) (last (shape x)) (data x))\<rparr>)"

section \<open>Parameter initialisation\<close>

text \<open>
  \<^verbatim>\<open>torch.empty\<close> and \<^verbatim>\<open>torch.randn\<close> allocate a tensor of the given shape;
  \<^verbatim>\<open>kaiming_uniform_\<close> and \<^verbatim>\<open>uniform_\<close> overwrite every element in place. The values
  come from uninitialised memory or from the random generator: they are the
  parameter \<open>src\<close>, of which only the first \<open>numel\<close> values are read.
\<close>

definition torch_empty :: "(nat \<Rightarrow> real) \<Rightarrow> nat list \<Rightarrow> tensor" where
  "torch_empty src s = \<lparr>shape = s, data = map src [0..<prod_list s]\<rparr>"

definition torch_randn :: "(nat \<Rightarrow> real) \<Rightarrow> nat list \<Rightarrow> tensor" where
  "torch_randn src s = \<lparr>shape = s, data = map src [0..<prod_list s]\<rparr>"

definition kaiming_uniform_inplace :: "(nat \<Rightarrow> real) \<Rightarrow> tensor \<Rightarrow> tensor" where
  "kaiming_uniform_inplace src t = t\<lparr>data := map src [0..<length (data t)]\<rparr>"

definition uniform_inplace :: "(nat \<Rightarrow> real) \<Rightarrow> real \<Rightarrow> real \<Rightarrow> tensor \<Rightarrow> tensor" where
  "uniform_inplace src lo hi t = t\<lparr>data := map (\<lambda>i. lo + (hi - lo) * src i) [0..<length (data t)]\<rparr>"

section \<open>The signature library\<close>

text \<open>
  \<^verbatim>\<open>signatory\<close> is an optional import: the module-level name is the library or
  \<^verbatim>\<open>None\<close>. The library is a parameter of the model. \<open>logsignature_channels c d\<close> is
  the size of a logsignature of depth \<open>d\<close> of a path with \<open>c\<close> channels, and
  \<open>Logsignature d path k\<close> is coordinate \<open>k\<close> of the logsignature of depth \<open>d\<close> of one
  path, given as its list of points. The library's own checks of its arguments (a
  positive depth, at least two points) are not modelled: both functions are total.
\<close>

record signatory =
  logsignature_channels :: "nat \<Rightarrow> nat \<Rightarrow> nat"
  Logsignature :: "nat \<Rightarrow> real list list \<Rightarrow> nat \<Rightarrow> real"

text \<open>
  Calling \<^verbatim>\<open>signatory.Logsignature(depth=depth)\<close> on a tensor of shape \<open>(N, L, C)\<close>: one
  logsignature per path of the batch, a tensor of shape \<open>(N, D)\<close>.
\<close>

definition Logsignature_call :: "signatory \<Rightarrow> nat \<Rightarrow> tensor \<Rightarrow> error + tensor" where
  "Logsignature_call sg dep t =
     (case shape t of
        [N, L, C] \<Rightarrow>
          Inr \<lparr>shape = [N, logsignature_channels sg C dep],
               data = concat (map (\<lambda>path. map (Logsignature sg dep (rows L C path))
                                             [0..<logsignature_channels sg C dep])
                                  (rows N (L * C) (data t)))\<rparr>
      | _ \<Rightarrow> Inl RuntimeError)"

section \<open>The discrepancy modules and their constructors\<close>

record discrepancy_config =
  in_channels :: nat
  pseudometric :: bool
  metric_type :: string

record L2Discrepancy = discrepancy_config +
  arg :: tensor

record LogsignatureDiscrepancy = discrepancy_config +
  depth :: nat
  p_exp :: pnum
  include_time :: bool
  linear :: "tensor option"
  logsignature :: "tensor \<Rightarrow> error + tensor"

text \<open>
  \<^verbatim>\<open>L2Discrepancy.__init__\<close>. The result is paired with the shapes of the tensors the
  constructor has allocated, in order. The \<^verbatim>\<open>assert\<close> statement is executed (Python
  run without \<^verbatim>\<open>-O\<close>), and \<open>in_channels\<close> is a natural number.
\<close>

definition L2Discrepancy_init ::
  "(nat \<Rightarrow> real) \<Rightarrow> nat \<Rightarrow> bool \<Rightarrow> string \<Rightarrow> (error + L2Discrepancy) \<times> nat list list" where
  "L2Discrepancy_init src in_ch pm mt =
     (if mt \<notin> set [''general'', ''diagonal''] then (Inl AssertionError, [])
      else if pm then
        (if mt = ''general'' then
           (Inr \<lparr>in_channels = in_ch, pseudometric = pm, metric_type = mt,
                 arg = kaiming_uniform_inplace src (torch_empty src [in_ch, in_ch])\<rparr>,
            [[in_ch, in_ch]])
         else
           (Inr \<lparr>in_channels = in_ch, pseudometric = pm, metric_type = mt,
                 arg = uniform_inplace src (9 / 10) (11 / 10) (torch_empty src [in_ch])\<rparr>,
            [[in_ch]]))
      else
        (Inr \<lparr>in_channels = in_ch, pseudometric = pm, metric_type = mt,
              arg = torch_empty src []\<rparr>,
         [[]]))"

text \<open>
  \<^verbatim>\<open>CppDiscrepancy.forward\<close>: the kernel \<open>fn\<close> is called with the module's \<open>arg\<close> as its
  fourth argument, and what it returns (or raises) is the outcome \<open>'r\<close> of the call. The
  module is returned with it: the call assigns none of its attributes.
\<close>

definition CppDiscrepancy_forward ::
  "(tensor \<Rightarrow> tensor \<Rightarrow> tensor \<Rightarrow> tensor \<Rightarrow> 'r) \<Rightarrow> L2Discrepancy \<Rightarrow>
   tensor \<Rightarrow> tensor \<Rightarrow> tensor \<Rightarrow> 'r \<times> L2Discrepancy" where
  "CppDiscrepancy_forward fn self time path1 path2 = (fn time path1 path2 (arg self), self)"

text \<open>\<^verbatim>\<open>LogsignatureDiscrepancy.__init__\<close>, with the module-level \<^verbatim>\<open>signatory\<close> as \<open>sgo\<close>.\<close>

definition LogsignatureDiscrepancy_init ::
  "signatory option \<Rightarrow> (nat \<Rightarrow> real) \<Rightarrow> nat \<Rightarrow> nat \<Rightarrow> pnum \<Rightarrow> bool \<Rightarrow> bool \<Rightarrow> string \<Rightarrow>
   (error + LogsignatureDiscrepancy) \<times> nat list list" where
  "LogsignatureDiscrepancy_init sgo src in_ch dep pp it pm mt =
     (if mt \<notin> set [''general'', ''diagonal''] then (Inl AssertionError, [])
      else case sgo of
        None \<Rightarrow> (Inl ImportError, [])
      | Some sg \<Rightarrow>
          (if pm then
             (let channels = in_ch;
                  channels = (if it then channels + 1 else channels);
                  lc = logsignature_channels sg channels dep
              in if mt = ''general'' then
                   (Inr \<lparr>in_channels = in_ch, pseudometric = pm, metric_type = mt,
                         depth = dep, p_exp = pp, include_time = it,
                         linear = Some (kaiming_uniform_inplace src (torch_randn src [lc, lc])),
                         logsignature = Logsignature_call sg dep\<rparr>,
                    [[lc, lc]])
                 else
                   (Inr \<lparr>in_channels = in_ch, pseudometric = pm, metric_type = mt,
                         depth = dep, p_exp = pp, include_time = it,
                         linear = Some (uniform_inplace src (9 / 10) (11 / 10) (torch_randn src [lc])),
                         logsignature = Logsignature_call sg dep\<rparr>,
                    [[lc]]))
           else
             (Inr \<lparr>in_channels = in_ch, pseudometric = pm, metric_type = mt,
                   depth = dep, p_exp = pp, include_time = it,
                   linear = None,
                   logsignature = Logsignature_call sg dep\<rparr>,
              [])))"

section \<open>LogsignatureDiscrepancy.forward\<close>

text \<open>
  The loop \<^verbatim>\<open>for dim in batch_dims: tc = tc.unsqueeze(0).expand(dim, *tc.shape)\<close>, which
  takes the batch sizes first to last and puts each one in front of the shape.
\<close>

fun expand_time_channel :: "nat list \<Rightarrow> tensor \<Rightarrow> error + tensor" where
  "expand_time_channel [] tc = Inr tc"
| "expand_time_channel (n # dims) tc =
     bind_err (unsqueeze 0 tc) (\<lambda>u.
     bind_err (expand (n # shape tc) u) (\<lambda>tc'. expand_time_channel dims tc'))"

text \<open>The branch \<^verbatim>\<open>if self.include_time\<close>: time becomes the first channel of both paths.\<close>

definition augment_time :: "tensor \<Rightarrow> tensor \<Rightarrow> tensor \<Rightarrow> error + tensor \<times> tensor" where
  "augment_time tgrid path1 path2 =
     bind_err (unsqueeze (- 1) tgrid) (\<lambda>tc.
     bind_err (expand_time_channel (batch_dims path1) tc) (\<lambda>time_channel1.
     bind_err (expand_time_channel (batch_dims path2) tc) (\<lambda>time_channel2.
     bind_err (cat_last time_channel1 path1) (\<lambda>p1.
     bind_err (cat_last time_channel2 path2) (\<lambda>p2. Inr (p1, p2))))))"

text \<open>\<^verbatim>\<open>path.view(-1, path.size(-2), path.size(-1))\<close>: one batch dimension for the library.\<close>

definition flatten_batch :: "tensor \<Rightarrow> error + tensor" where
  "flatten_batch path =
     bind_err (size_at path (- 2)) (\<lambda>l.
     bind_err (size_at path (- 1)) (\<lambda>c. view_infer path l c))"

text \<open>The loops \<^verbatim>\<open>for _ in batch_dims: t.unsqueeze_(d)\<close>.\<close>

fun unsqueeze_loop :: "int \<Rightarrow> nat list \<Rightarrow> tensor \<Rightarrow> error + tensor" where
  "unsqueeze_loop d [] t = Inr t"
| "unsqueeze_loop d (_ # dims) t = bind_err (unsqueeze d t) (\<lambda>t'. unsqueeze_loop d dims t')"

text \<open>
  From the two views that restore the batch shapes to the subtraction: the second
  \<^verbatim>\<open>expand\<close> reads the last size of the first logsignature after its own expansion.
\<close>

definition pairwise_diff :: "nat list \<Rightarrow> nat list \<Rightarrow> tensor \<Rightarrow> tensor \<Rightarrow> error + tensor" where
  "pairwise_diff path1_batch_dims path2_batch_dims ls1 ls2 =
     bind_err (size_at ls1 (- 1)) (\<lambda>d1.
     bind_err (view ls1 (path1_batch_dims @ [d1])) (\<lambda>logsignature1.
     bind_err (size_at ls2 (- 1)) (\<lambda>d2.
     bind_err (view ls2 (path2_batch_dims @ [d2])) (\<lambda>logsignature2.
     bind_err (unsqueeze_loop 0 path1_batch_dims logsignature2) (\<lambda>logsignature2.
     bind_err (unsqueeze_loop (- 2) path2_batch_dims logsignature1) (\<lambda>logsignature1.
     bind_err (size_at logsignature1 (- 1)) (\<lambda>d.
     bind_err (expand (path1_batch_dims @ path2_batch_dims @ [d]) logsignature1) (\<lambda>logsignature1.
     bind_err (size_at logsignature1 (- 1)) (\<lambda>d'.
     bind_err (expand (path1_batch_dims @ path2_batch_dims @ [d']) logsignature2) (\<lambda>logsignature2.
     tensor_sub logsignature1 logsignature2))))))))))"

definition apply_pseudometric :: "LogsignatureDiscrepancy \<Rightarrow> tensor \<Rightarrow> error + tensor" where
  "apply_pseudometric self logsignature_diff =
     (if pseudometric self then
        (if metric_type self = ''general'' then matmul logsignature_diff (linear self)
         else mul logsignature_diff (linear self))
      else Inr logsignature_diff)"

definition forward :: "LogsignatureDiscrepancy \<Rightarrow> tensor \<Rightarrow> tensor \<Rightarrow> tensor \<Rightarrow> error + tensor" where
  "forward self tgrid path1 path2 =
     (let path1_batch_dims = batch_dims path1;
          path2_batch_dims = batch_dims path2
      in bind_err (if include_time self then augment_time tgrid path1 path2
                   else Inr (path1, path2)) (\<lambda>(path1, path2).
         bind_err (flatten_batch path1) (\<lambda>path1.
         bind_err (flatten_batch path2) (\<lambda>path2.
         bind_err (logsignature self path1) (\<lambda>logsignature1.
         bind_err (logsignature self path2) (\<lambda>logsignature2.
         bind_err (pairwise_diff path1_batch_dims path2_batch_dims logsignature1 logsignature2)
           (\<lambda>logsignature_diff.
         bind_err (apply_pseudometric self logsignature_diff) (\<lambda>logsignature_diff.
         norm_last (p_exp self) logsignature_diff))))))))"

text \<open>
  A signature library for examples: at depth one the logsignature of a path is its
  increment, the last point minus the first, with as many coordinates as channels.
\<close>

definition increment_signatory :: signatory where
  "increment_signatory =
     \<lparr>logsignature_channels = (\<lambda>c d. c),
      Logsignature = (\<lambda>d path k. last path ! k - hd path ! k)\<rparr>"

section \<open>What forward computes, in words of lists\<close>

text \<open>
  The definitions of this section are not translations of the source: they say, on
  lists, what the result of \<^verbatim>\<open>forward\<close> is compared with. \<open>pairwise f xs ys\<close> pairs
  every element of \<open>xs\<close> with every element of \<open>ys\<close>, row by row.
\<close>

definition pairwise :: "('a \<Rightarrow> 'b \<Rightarrow> 'c) \<Rightarrow> 'a list \<Rightarrow> 'b list \<Rightarrow> 'c list" where
  "pairwise f xs ys = concat (map (\<lambda>x. map (f x) ys) xs)"

text \<open>
  The logsignatures of the paths of a tensor of shape \<open>(B..., L, C)\<close>, one list of
  coordinates per element of the batch, in row-major order of the batch.
\<close>

definition logsignatures :: "signatory \<Rightarrow> nat \<Rightarrow> tensor \<Rightarrow> real list list" where
  "logsignatures sg dep path =
     (let c = last (shape path); l = last (butlast (shape path))
      in map (\<lambda>pth. map (Logsignature sg dep (rows l c pth)) [0..<logsignature_channels sg c dep])
             (rows (prod_list (batch_dims path)) (l * c) (data path)))"

text \<open>
  The pseudometric on one difference vector, and the condition that the parameter has
  the shape the constructor gives it for logsignatures of size \<open>d\<close>.
\<close>

definition transform_row :: "LogsignatureDiscrepancy \<Rightarrow> real list \<Rightarrow> real list" where
  "transform_row self r =
     (if pseudometric self then
        (case linear self of
           None \<Rightarrow> r
         | Some m \<Rightarrow>
             (if metric_type self = ''general''
              then row_times_matrix r (rows (length r) (length r) (data m)) (length r)
              else map (\<lambda>(a, b). a * b) (zip r (data m))))
      else r)"

definition parameter_fits :: "LogsignatureDiscrepancy \<Rightarrow> nat \<Rightarrow> bool" where
  "parameter_fits self d =
     (if pseudometric self then
        (case linear self of
           None \<Rightarrow> False
         | Some m \<Rightarrow>
             wf_tensor m \<and> shape m = (if metric_type self = ''general'' then [d, d] else [d]))
      else True)"

text \<open>
  A path with time as its first channel: every point \<open>x\<close> sampled at time \<open>t\<close> becomes
  \<open>t # x\<close>, for every element of the batch.
\<close>

definition time_augmented :: "tensor \<Rightarrow> tensor \<Rightarrow> tensor" where
  "time_augmented tgrid path =
     (let n = prod_list (butlast (shape path))
      in \<lparr>shape = butlast (shape path) @ [Suc (last (shape path))],
          data = concat (map (\<lambda>(t, x). t # x)
                    (zip (concat (replicate (prod_list (batch_dims path)) (data tgrid)))
                         (rows n (last (shape path)) (data path))))\<rparr>)"

text \<open>The discrepancy of two logsignatures: the p-norm of their transformed difference.\<close>

definition discrepancy_row :: "LogsignatureDiscrepancy \<Rightarrow> real list \<Rightarrow> real list \<Rightarrow> real" where
  "discrepancy_row self x y =
     vector_norm (p_exp self) (transform_row self (map (\<lambda>(u, v). u - v) (zip x y)))"

section \<open>The native kernel of L2Discrepancy\<close>

text \<open>
  Modelled from the spec: \<^verbatim>\<open>_impl.l2_discrepancy\<close>, the compiled kernel that
  \<^verbatim>\<open>L2Discrepancy\<close> calls, is not among the source files. The specification (4.2) gives
  its contract: it fails with ShapeError if \<open>path2\<close> carries a batch dimension, if the
  times are not strictly increasing or if the channel counts differ, and otherwise
  returns, for every path of the batch of \<open>path1\<close>, the square root of the integral of
  the squared norm of \<open>A (f - g)\<close>, computed in closed form on every segment of the time
  grid and summed. \<open>A\<close> is read off the shape of the fourth argument as the constructor
  makes it: no dimension for the identity, one for a diagonal, two for a matrix (4.1).
\<close>

definition strictly_increasing :: "real list \<Rightarrow> bool" where
  "strictly_increasing ts = sorted_wrt (<) ts"

text \<open>Modelled from the spec: the pseudometric transform (4.1) on one difference vector.\<close>

definition pseudometric_apply :: "tensor \<Rightarrow> real list \<Rightarrow> real list" where
  "pseudometric_apply a d =
     (case shape a of
        [] \<Rightarrow> d
      | [n] \<Rightarrow> map (\<lambda>(x, y). x * y) (zip d (data a))
      | [k, n] \<Rightarrow> row_times_matrix d (rows k n (data a)) n
      | _ \<Rightarrow> d)"

text \<open>
  Modelled from the spec: the closed form of the integral over one segment. The
  difference is linear from \<open>d0\<close> at \<open>t0\<close> to \<open>d1\<close> at \<open>t1\<close>, and the integral of its
  squared norm is \<open>(t1 - t0) / 3\<close> times the sum of \<open>a\<^sup>2 + a b + b\<^sup>2\<close> over the channels.
\<close>

definition segment_integral :: "real \<Rightarrow> real \<Rightarrow> real list \<Rightarrow> real list \<Rightarrow> real" where
  "segment_integral t0 t1 d0 d1 =
     (t1 - t0) / 3 * sum_list (map (\<lambda>(a, b). a * a + a * b + b * b) (zip d0 d1))"

fun integral_sq :: "real list \<Rightarrow> real list list \<Rightarrow> real" where
  "integral_sq (t0 # t1 # ts) (d0 # d1 # ds) =
     segment_integral t0 t1 d0 d1 + integral_sq (t1 # ts) (d1 # ds)"
| "integral_sq _ _ = 0"

text \<open>Modelled from the spec: the channel count of a path, its last dimension.\<close>

definition channels :: "tensor \<Rightarrow> nat" where
  "channels t = (if shape t = [] then 0 else last (shape t))"

text \<open>
  Modelled from the spec: the kernel. Its outcome is paired with the tensor work it has
  done, as the shapes of the tensors it has computed, in order: the differences
  \<open>f - g\<close> at the points of the grid, for every path of the batch, then the result. The
  three checks come first and fail before any tensor work (7: call-time shape checks fail
  before any tensor work is performed, never silently coerced).
\<close>

definition l2_discrepancy ::
  "tensor \<Rightarrow> tensor \<Rightarrow> tensor \<Rightarrow> tensor \<Rightarrow> (error + tensor) \<times> nat list list" where
  "l2_discrepancy tgrid path1 path2 a =
     (if batch_dims path2 \<noteq> [] then (Inl ShapeError, [])
      else if \<not> strictly_increasing (data tgrid) then (Inl ShapeError, [])
      else if channels path1 \<noteq> channels path2 then (Inl ShapeError, [])
      else
        (let c = channels path1;
             l = length (data tgrid);
             g = rows l c (data path2)
         in (Inr \<lparr>shape = batch_dims path1,
                  data = map (\<lambda>f. sqrt (integral_sq (data tgrid)
                                       (map (\<lambda>(x, y). pseudometric_apply a (map (\<lambda>(u, v). u - v) (zip x y)))
                                            (zip (rows l c f) g))))
                             (rows (prod_list (batch_dims path1)) (l * c) (data path1))\<rparr>,
             [batch_dims path1 @ [l, c], batch_dims path1])))"

text \<open>
  \<^verbatim>\<open>L2Discrepancy\<close> sets the class attribute \<^verbatim>\<open>fn = _impl.l2_discrepancy\<close> and inherits
  \<^verbatim>\<open>forward\<close> from \<^verbatim>\<open>CppDiscrepancy\<close>.
\<close>

definition L2Discrepancy_forward ::
  "L2Discrepancy \<Rightarrow> tensor \<Rightarrow> tensor \<Rightarrow> tensor \<Rightarrow>
   ((error + tensor) \<times> nat list list) \<times> L2Discrepancy" where
  "L2Discrepancy_forward = CppDiscrepancy_forward l2_discrepancy"

text \<open>
  What the result is compared with. The linear interpolant between two points on one
  segment; the piecewise-linear path through the points \<open>ps\<close> at the times \<open>ts\<close> (on
  the grid it takes the values of the points); the squared Euclidean norm; and the
  \<open>k\<close>-th path of a batch as its list of points.
\<close>

definition interpolate :: "real \<Rightarrow> real \<Rightarrow> real list \<Rightarrow> real list \<Rightarrow> real \<Rightarrow> real list" where
  "interpolate t0 t1 d0 d1 t = map (\<lambda>(a, b). a + (t - t0) / (t1 - t0) * (b - a)) (zip d0 d1)"

definition sq_norm :: "real list \<Rightarrow> real" where
  "sq_norm xs = sum_list (map (\<lambda>x. x * x) xs)"

fun interp_path :: "real list \<Rightarrow> real list list \<Rightarrow> real \<Rightarrow> real list" where
  "interp_path (t0 # t1 # ts) (p0 # p1 # ps) t =
     (if t \<le> t1 then interpolate t0 t1 p0 p1 t else interp_path (t1 # ts) (p1 # ps) t)"
| "interp_path _ _ t = []"

definition path_points :: "tensor \<Rightarrow> nat \<Rightarrow> real list list" where
  "path_points p k =
     (let c = last (shape p); l = last (butlast (shape p))
      in rows l c (rows (prod_list (batch_dims p)) (l * c) (data p) ! k))"

text \<open>
  The integrand \<open>|A (f t - g t)|\<^sup>2\<close> for the paths \<open>f\<close> and \<open>g\<close> through the points \<open>fs\<close>
  and \<open>gs\<close>.
\<close>

definition integrand :: "tensor \<Rightarrow> real list \<Rightarrow> real list list \<Rightarrow> real list list \<Rightarrow> real \<Rightarrow> real" where
  "integrand a ts fs gs t =
     sq_norm (pseudometric_apply a
       (map (\<lambda>(u, v). u - v) (zip (interp_path ts fs t) (interp_path ts gs t))))"

text \<open>
  \<open>v\<close> is the integral of \<open>h\<close> from \<open>a\<close> to \<open>b\<close>: the increment of an antiderivative of \<open>h\<close>
  on the interval (the fundamental theorem of calculus). \<open>v\<close> is the integral of \<open>h\<close>
  over a grid: the sum of its integrals over the segments between consecutive times.
\<close>

definition integral_on :: "(real \<Rightarrow> real) \<Rightarrow> real \<Rightarrow> real \<Rightarrow> real \<Rightarrow> bool" where
  "integral_on h a b v \<longleftrightarrow>
     (\<exists>F. (\<forall>t\<in>{a..b}. (F has_real_derivative h t) (at t within {a..b})) \<and> F b - F a = v)"

fun grid_integral :: "(real \<Rightarrow> real) \<Rightarrow> real list \<Rightarrow> real \<Rightarrow> bool" where
  "grid_integral h (t0 # t1 # ts) v =
     (\<exists>v0 v1. integral_on h t0 t1 v0 \<and> grid_integral h (t1 # ts) v1 \<and> v = v0 + v1)"
| "grid_integral h _ v = (v = 0)"


section \<open>forward on a store of tensor objects\<close>

text \<open>
  For the effect of \<^verbatim>\<open>forward\<close> on its arguments, tensors are objects in a store and
  variables hold references (indices into the store). An operation that returns a
  tensor allocates a new object at the end of the store; \<^verbatim>\<open>unsqueeze_\<close> replaces the
  object it is called on. No operation of \<^verbatim>\<open>forward\<close> writes elements in place, so an
  object is the value it denotes, as before.
\<close>

type_synonym store = "tensor list"

definition bind_st ::
  "(store \<Rightarrow> (error + 'a) \<times> store) \<Rightarrow> ('a \<Rightarrow> store \<Rightarrow> (error + 'b) \<times> store) \<Rightarrow>
   store \<Rightarrow> (error + 'b) \<times> store" where
  "bind_st m f s = (case m s of (Inl e, s') \<Rightarrow> (Inl e, s') | (Inr x, s') \<Rightarrow> f x s')"

definition ret :: "'a \<Rightarrow> store \<Rightarrow> (error + 'a) \<times> store" where
  "ret x s = (Inr x, s)"

definition new_tensor :: "error + tensor \<Rightarrow> store \<Rightarrow> (error + nat) \<times> store" where
  "new_tensor r s = (case r of Inl e \<Rightarrow> (Inl e, s) | Inr t \<Rightarrow> (Inr (length s), s @ [t]))"

text \<open>An operation on one or two tensors of the store, whose result is a new object.\<close>

definition op1 :: "(tensor \<Rightarrow> error + tensor) \<Rightarrow> nat \<Rightarrow> store \<Rightarrow> (error + nat) \<times> store" where
  "op1 f r s = new_tensor (f (s ! r)) s"

definition op2 ::
  "(tensor \<Rightarrow> tensor \<Rightarrow> error + tensor) \<Rightarrow> nat \<Rightarrow> nat \<Rightarrow> store \<Rightarrow> (error + nat) \<times> store" where
  "op2 f r1 r2 s = new_tensor (f (s ! r1) (s ! r2)) s"

text \<open>\<^verbatim>\<open>t.unsqueeze_(d)\<close>: the object at \<open>r\<close> is replaced, and nothing is returned.\<close>

definition unsqueeze_inplace :: "int \<Rightarrow> nat \<Rightarrow> store \<Rightarrow> (error + unit) \<times> store" where
  "unsqueeze_inplace d r s =
     (case unsqueeze d (s ! r) of Inl e \<Rightarrow> (Inl e, s) | Inr t \<Rightarrow> (Inr (), s[r := t]))"

text \<open>The statements of \<^verbatim>\<open>forward\<close>, in the order of the source.\<close>

fun expand_time_channel_st :: "nat list \<Rightarrow> nat \<Rightarrow> store \<Rightarrow> (error + nat) \<times> store" where
  "expand_time_channel_st [] tc s = ret tc s"
| "expand_time_channel_st (n # dims) tc s =
     bind_st (op1 (unsqueeze 0) tc) (\<lambda>u.
     bind_st (\<lambda>s'. op1 (expand (n # shape (s' ! tc))) u s') (\<lambda>tc' s'.
       expand_time_channel_st dims tc' s')) s"

fun unsqueeze_loop_st :: "int \<Rightarrow> nat list \<Rightarrow> nat \<Rightarrow> store \<Rightarrow> (error + unit) \<times> store" where
  "unsqueeze_loop_st d [] r s = ret () s"
| "unsqueeze_loop_st d (_ # dims) r s =
     bind_st (unsqueeze_inplace d r) (\<lambda>_ s'. unsqueeze_loop_st d dims r s') s"

definition augment_time_st :: "nat \<Rightarrow> nat \<Rightarrow> nat \<Rightarrow> store \<Rightarrow> (error + nat \<times> nat) \<times> store" where
  "augment_time_st tgrid path1 path2 =
     bind_st (op1 (unsqueeze (- 1)) tgrid) (\<lambda>tc.
     bind_st (\<lambda>s. expand_time_channel_st (batch_dims (s ! path1)) tc s) (\<lambda>time_channel1.
     bind_st (\<lambda>s. expand_time_channel_st (batch_dims (s ! path2)) tc s) (\<lambda>time_channel2.
     bind_st (op2 cat_last time_channel1 path1) (\<lambda>p1.
     bind_st (op2 cat_last time_channel2 path2) (\<lambda>p2. ret (p1, p2))))))"

text \<open>
  \<^verbatim>\<open>ls.view(*batch_dims, ls.size(-1))\<close> and
  \<^verbatim>\<open>ls.expand(*batch_dims1, *batch_dims2, logsignature1.size(-1))\<close>.
\<close>

definition view_batch :: "nat list \<Rightarrow> tensor \<Rightarrow> error + tensor" where
  "view_batch b t = bind_err (size_at t (- 1)) (\<lambda>d. view t (b @ [d]))"

definition expand_pair :: "nat list \<Rightarrow> nat list \<Rightarrow> tensor \<Rightarrow> tensor \<Rightarrow> error + tensor" where
  "expand_pair b1 b2 sized t = bind_err (size_at sized (- 1)) (\<lambda>d. expand (b1 @ b2 @ [d]) t)"

text \<open>The parameter \<^verbatim>\<open>self.linear\<close> is the object at \<open>lin\<close>, or \<^verbatim>\<open>None\<close>.\<close>

definition apply_pseudometric_st ::
  "LogsignatureDiscrepancy \<Rightarrow> nat option \<Rightarrow> nat \<Rightarrow> store \<Rightarrow> (error + nat) \<times> store" where
  "apply_pseudometric_st self lin logsignature_diff s =
     (if pseudometric self then
        (if metric_type self = ''general''
         then new_tensor (matmul (s ! logsignature_diff) (map_option (\<lambda>r. s ! r) lin)) s
         else new_tensor (mul (s ! logsignature_diff) (map_option (\<lambda>r. s ! r) lin)) s)
      else ret logsignature_diff s)"

definition forward_st ::
  "LogsignatureDiscrepancy \<Rightarrow> nat option \<Rightarrow> nat \<Rightarrow> nat \<Rightarrow> nat \<Rightarrow> store \<Rightarrow> (error + nat) \<times> store" where
  "forward_st self lin tgrid path1 path2 s =
     (let path1_batch_dims = batch_dims (s ! path1);
          path2_batch_dims = batch_dims (s ! path2)
      in bind_st (if include_time self then augment_time_st tgrid path1 path2
                  else ret (path1, path2)) (\<lambda>(path1, path2).
         bind_st (op1 flatten_batch path1) (\<lambda>path1.
         bind_st (op1 flatten_batch path2) (\<lambda>path2.
         bind_st (op1 (logsignature self) path1) (\<lambda>logsignature1.
         bind_st (op1 (logsignature self) path2) (\<lambda>logsignature2.
         bind_st (op1 (view_batch path1_batch_dims) logsignature1) (\<lambda>logsignature1.
         bind_st (op1 (view_batch path2_batch_dims) logsignature2) (\<lambda>logsignature2.
         bind_st (unsqueeze_loop_st 0 path1_batch_dims logsignature2) (\<lambda>_.
         bind_st (unsqueeze_loop_st (- 2) path2_batch_dims logsignature1) (\<lambda>_.
         bind_st (op2 (expand_pair path1_batch_dims path2_batch_dims) logsignature1 logsignature1)
           (\<lambda>logsignature1.
         bind_st (op2 (expand_pair path1_batch_dims path2_batch_dims) logsignature1 logsignature2)
           (\<lambda>logsignature2.
         bind_st (op2 tensor_sub logsignature1 logsignature2) (\<lambda>logsignature_diff.
         bind_st (apply_pseudometric_st self lin logsignature_diff) (\<lambda>logsignature_diff.
         op1 (norm_last (p_exp self)) logsignature_diff))))))))))))) s)"

text \<open>
  A computation keeps the first \<open>n\<close> objects of the store when it leaves them as they
  are; it allocates above \<open>n\<close> when the reference it returns is none of them.
\<close>

definition keeps :: "nat \<Rightarrow> (store \<Rightarrow> (error + 'a) \<times> store) \<Rightarrow> bool" where
  "keeps n m \<longleftrightarrow> (\<forall>s. n \<le> length s \<longrightarrow> n \<le> length (snd (m s)) \<and> take n (snd (m s)) = take n s)"

definition allocs :: "nat \<Rightarrow> (store \<Rightarrow> (error + nat) \<times> store) \<Rightarrow> bool" where
  "allocs n m \<longleftrightarrow> keeps n m \<and> (\<forall>s x. n \<le> length s \<longrightarrow> fst (m s) = Inr x \<longrightarrow> n \<le> x)"

text \<open>
  For the comparison with \<^verbatim>\<open>forward\<close> on values: reading one or two references of a
  store, a store that has only grown, a computation that only allocates and ends
  with the value \<open>v\<close> (or its error), and a computation whose result is \<open>v\<close>.
\<close>

definition rd_ref :: "store \<Rightarrow> nat \<Rightarrow> tensor option" where
  "rd_ref s r = (if r < length s then Some (s ! r) else None)"

definition rd_pair :: "store \<Rightarrow> nat \<times> nat \<Rightarrow> (tensor \<times> tensor) option" where
  "rd_pair s x = (if fst x < length s \<and> snd x < length s then Some (s ! fst x, s ! snd x) else None)"

definition tracks ::
  "(store \<Rightarrow> 'a \<Rightarrow> 'v option) \<Rightarrow> (store \<Rightarrow> (error + 'a) \<times> store) \<Rightarrow> store \<Rightarrow> error + 'v \<Rightarrow> bool" where
  "tracks rd m s v \<longleftrightarrow>
     (\<exists>ext. snd (m s) = s @ ext) \<and>
     (case v of Inl e \<Rightarrow> fst (m s) = Inl e
      | Inr t \<Rightarrow> (\<exists>x. fst (m s) = Inr x \<and> rd (snd (m s)) x = Some t))"

definition agrees :: "(store \<Rightarrow> (error + nat) \<times> store) \<Rightarrow> store \<Rightarrow> error + tensor \<Rightarrow> bool" where
  "agrees m s v \<longleftrightarrow>
     (case v of Inl e \<Rightarrow> fst (m s) = Inl e
      | Inr t \<Rightarrow> (\<exists>r. fst (m s) = Inr r \<and> rd_ref (snd (m s)) r = Some t))"

definition extends :: "store \<Rightarrow> store \<Rightarrow> bool" where
  "extends s s' \<longleftrightarrow> (\<exists>ext. s' = s @ ext)"

section \<open>Blocks of a row-major list\<close>

lemma bind_err_simps [simp]:
  "bind_err (Inl e) f = Inl e" "bind_err (Inr x) f = f x"
  by (simp_all add: bind_err_def)

lemma length_rows [simp]: "length (rows k n xs) = k"
  by (induction k arbitrary: xs) auto

lemma concat_rows: "length xs = k * n \<Longrightarrow> concat (rows k n xs) = xs"
  by (induction k arbitrary: xs) auto

lemma rows_length_each: "length xs = k * n \<Longrightarrow> r \<in> set (rows k n xs) \<Longrightarrow> length r = n"
proof (induction k arbitrary: xs)
  case 0
  then show ?case by simp
next
  case (Suc k)
  have "length (drop n xs) = k * n" using Suc.prems(1) by simp
  from Suc.IH [OF this] Suc.prems show ?case by auto
qed

lemma rows_concat:
  "length xss = k \<Longrightarrow> (\<And>r. r \<in> set xss \<Longrightarrow> length r = n) \<Longrightarrow> rows k n (concat xss) = xss"
proof (induction k arbitrary: xss)
  case 0
  then show ?case by simp
next
  case (Suc k)
  then obtain x rest where xss: "xss = x # rest" by (cases xss) auto
  with Suc.prems have "length x = n" "length rest = k" by auto
  with Suc xss show ?case by simp
qed

lemma rows_append:
  "length ys = m * d \<Longrightarrow> rows (m + k) d (ys @ zs) = rows m d ys @ rows k d zs"
proof (induction m arbitrary: ys)
  case 0
  then show ?case by simp
next
  case (Suc m)
  have "length (drop d ys) = m * d" using Suc.prems by simp
  from Suc.IH [OF this] Suc.prems show ?case by simp
qed

lemma rows_mult:
  "length xs = a * (m * d) \<Longrightarrow> rows (a * m) d xs = concat (map (rows m d) (rows a (m * d) xs))"
proof (induction a arbitrary: xs)
  case 0
  then show ?case by simp
next
  case (Suc a)
  let ?ys = "take (m * d) xs" and ?zs = "drop (m * d) xs"
  have ly: "length ?ys = m * d" using Suc.prems by simp
  have lz: "length ?zs = a * (m * d)" using Suc.prems by simp
  have "rows (m + a * m) d (?ys @ ?zs) = rows m d ?ys @ rows (a * m) d ?zs"
    by (rule rows_append [OF ly])
  with Suc.IH [OF lz] show ?case by simp
qed

lemma concat_replicate_times:
  "concat (replicate (a * b) xs) = concat (replicate a (concat (replicate b xs)))"
proof (induction a)
  case 0
  then show ?case by simp
next
  case (Suc a)
  have "replicate (Suc a * b) xs = replicate b xs @ replicate (a * b) xs"
    by (simp add: replicate_add [symmetric])
  with Suc show ?case by simp
qed

lemma expand_data_same: "length xs = prod_list s \<Longrightarrow> expand_data s s xs = xs"
proof (induction s arbitrary: xs)
  case Nil
  then show ?case by simp
next
  case (Cons a s)
  have "\<And>r. r \<in> set (rows a (prod_list s) xs) \<Longrightarrow> expand_data s s r = r"
  proof (rule Cons.IH)
    fix r assume "r \<in> set (rows a (prod_list s) xs)"
    with Cons.prems show "length r = prod_list s"
      by (auto intro: rows_length_each [of xs a])
  qed
  then have "map (expand_data s s) (rows a (prod_list s) xs) = rows a (prod_list s) xs"
    by (simp add: map_idI)
  then show ?case using Cons.prems by (simp add: concat_rows)
qed

lemma prod_list_ones [simp]: "prod_list (replicate k (Suc 0) @ s) = prod_list s"
  by (induction k) simp_all

lemma expand_data_front:
  "length b = k \<Longrightarrow> length xs = prod_list s \<Longrightarrow>
   expand_data (replicate k 1 @ s) (b @ s) xs = concat (replicate (prod_list b) xs)"
proof (induction b arbitrary: k)
  case Nil
  then show ?case by (simp add: expand_data_same)
next
  case (Cons n b)
  then obtain k' where k: "k = Suc k'" "length b = k'" by (cases k) auto
  let ?s' = "replicate k' (Suc 0) @ s"
  have ih: "expand_data ?s' (b @ s) xs = concat (replicate (prod_list b) xs)"
    using Cons.IH [OF k(2) Cons.prems(2)] by simp
  have unf: "expand_data (replicate k 1 @ s) ((n # b) @ s) xs =
        (if 1 = n then concat (map (expand_data ?s' (b @ s)) (rows 1 (prod_list ?s') xs))
         else concat (replicate n (expand_data ?s' (b @ s) xs)))"
    unfolding k by simp
  have r1: "rows 1 (prod_list ?s') xs = [xs]"
    using Cons.prems(2) by simp
  show ?case
  proof (cases "n = 1")
    case True
    then show ?thesis unfolding unf r1 by (simp add: ih)
  next
    case False
    then have "expand_data (replicate k 1 @ s) ((n # b) @ s) xs
        = concat (replicate n (concat (replicate (prod_list b) xs)))"
      unfolding unf ih by simp
    then show ?thesis by (simp add: concat_replicate_times)
  qed
qed

lemma concat_map_concat_map:
  "concat (map (\<lambda>r. concat (map f (g r))) ys) = concat (map f (concat (map g ys)))"
  by (induction ys) simp_all

lemma expand_data_mid:
  "length b2 = k \<Longrightarrow> length xs = prod_list b1 * d \<Longrightarrow>
   expand_data (b1 @ replicate k 1 @ [d]) (b1 @ b2 @ [d]) xs
     = concat (map (\<lambda>r. concat (replicate (prod_list b2) r)) (rows (prod_list b1) d xs))"
proof (induction b1 arbitrary: xs)
  case Nil
  then have "length xs = prod_list [d]" by simp
  from expand_data_front [OF Nil.prems(1) this] Nil.prems show ?case by simp
next
  case (Cons a b)
  let ?s = "b @ replicate k (Suc 0) @ [d]" and ?t = "b @ b2 @ [d]"
  let ?f = "\<lambda>r. concat (replicate (prod_list b2) r)"
  have ps: "prod_list ?s = prod_list b * d" by simp
  have len: "length xs = a * (prod_list b * d)" using Cons.prems(2) by (simp add: mult.assoc)
  have each: "expand_data ?s ?t r = concat (map ?f (rows (prod_list b) d r))"
    if "r \<in> set (rows a (prod_list b * d) xs)" for r
  proof -
    have "length r = prod_list b * d" using rows_length_each [OF len that] .
    from Cons.IH [OF Cons.prems(1) this] show ?thesis by simp
  qed
  have "expand_data ((a # b) @ replicate k 1 @ [d]) ((a # b) @ b2 @ [d]) xs
      = concat (map (expand_data ?s ?t) (rows a (prod_list ?s) xs))"
    by simp
  also have "\<dots> = concat (map (\<lambda>r. concat (map ?f (rows (prod_list b) d r)))
                        (rows a (prod_list b * d) xs))"
    unfolding ps using each by (simp cong: map_cong)
  also have "\<dots> = concat (map ?f (concat (map (rows (prod_list b) d) (rows a (prod_list b * d) xs))))"
    by (rule concat_map_concat_map)
  also have "\<dots> = concat (map ?f (rows (a * prod_list b) d xs))"
    using rows_mult [OF len] by simp
  finally show ?case by simp
qed

lemma map_zip_replicate_row:
  "length x = d \<Longrightarrow> length ys = n * d \<Longrightarrow>
   map f (zip (concat (replicate n x)) ys) = concat (map (\<lambda>y. map f (zip x y)) (rows n d ys))"
proof (induction n arbitrary: ys)
  case 0
  then show ?case by simp
next
  case (Suc n)
  have ys: "ys = take d ys @ drop d ys" by simp
  have l1: "length x = length (take d ys)" using Suc.prems by simp
  have l2: "length (drop d ys) = n * d" using Suc.prems by simp
  have "zip (x @ concat (replicate n x)) (take d ys @ drop d ys)
      = zip x (take d ys) @ zip (concat (replicate n x)) (drop d ys)"
    using l1 by (rule zip_append)
  with Suc.IH [OF Suc.prems(1) l2] show ?case by simp
qed

lemma map_zip_pairwise:
  "(\<And>x. x \<in> set X \<Longrightarrow> length x = d) \<Longrightarrow> length ys = n * d \<Longrightarrow>
   map f (zip (concat (map (\<lambda>x. concat (replicate n x)) X)) (concat (replicate (length X) ys)))
     = concat (map (\<lambda>x. concat (map (\<lambda>y. map f (zip x y)) (rows n d ys))) X)"
proof (induction X)
  case Nil
  then show ?case by simp
next
  case (Cons x X)
  have lx: "length x = d" using Cons.prems(1) by simp
  have l: "length (concat (replicate n x)) = length ys"
    using lx Cons.prems(2) by (simp add: length_concat sum_list_replicate)
  have "zip (concat (replicate n x) @ concat (map (\<lambda>x. concat (replicate n x)) X))
            (ys @ concat (replicate (length X) ys))
      = zip (concat (replicate n x)) ys
        @ zip (concat (map (\<lambda>x. concat (replicate n x)) X)) (concat (replicate (length X) ys))"
    using l by (rule zip_append)
  moreover have "map f (zip (concat (replicate n x)) ys)
      = concat (map (\<lambda>y. map f (zip x y)) (rows n d ys))"
    using lx Cons.prems(2) by (rule map_zip_replicate_row)
  moreover have "map f (zip (concat (map (\<lambda>x. concat (replicate n x)) X))
                          (concat (replicate (length X) ys)))
      = concat (map (\<lambda>x. concat (map (\<lambda>y. map f (zip x y)) (rows n d ys))) X)"
    using Cons.prems by (intro Cons.IH) auto
  ultimately show ?case by simp
qed

section \<open>The tensor operations of forward, step by step\<close>

lemma size_at_last [simp]: "shape t = s @ [d] \<Longrightarrow> size_at t (- 1) = Inr d"
  by (simp add: size_at_def Let_def nth_append)

lemma size_at_last2 [simp]: "shape t = s @ [l, c] \<Longrightarrow> size_at t (- 2) = Inr l"
  by (simp add: size_at_def Let_def nth_append)

lemma unsqueeze_front [simp]: "unsqueeze 0 t = Inr (t\<lparr>shape := 1 # shape t\<rparr>)"
  by (simp add: unsqueeze_def Let_def)

lemma unsqueeze_back [simp]: "unsqueeze (- 1) t = Inr (t\<lparr>shape := shape t @ [1]\<rparr>)"
  by (simp add: unsqueeze_def Let_def)

lemma unsqueeze_before_last:
  "shape t = s @ [d] \<Longrightarrow> unsqueeze (- 2) t = Inr (t\<lparr>shape := s @ [1, d]\<rparr>)"
  by (simp add: unsqueeze_def Let_def)

lemma unsqueeze_loop_front:
  "unsqueeze_loop 0 b t = Inr (t\<lparr>shape := replicate (length b) 1 @ shape t\<rparr>)"
proof (induction b arbitrary: t)
  case Nil
  then show ?case by simp
next
  case (Cons n b)
  then show ?case by (simp add: replicate_append_same)
qed

lemma unsqueeze_loop_before_last:
  "shape t = s @ [d] \<Longrightarrow>
   unsqueeze_loop (- 2) b t = Inr (t\<lparr>shape := s @ replicate (length b) 1 @ [d]\<rparr>)"
proof (induction b arbitrary: t s)
  case Nil
  then show ?case by simp
next
  case (Cons n b)
  have "shape (t\<lparr>shape := s @ [1, d]\<rparr>) = (s @ [1]) @ [d]" by simp
  from Cons.IH [OF this] Cons.prems show ?case
    by (simp add: unsqueeze_before_last replicate_append_same)
qed

lemma expandable_mid:
  "list_all2 (\<lambda>a b. a = b \<or> a = 1) (b1 @ replicate (length b2) 1 @ [d]) (b1 @ b2 @ [d])"
  by (intro list_all2_appendI) (simp_all add: list_all2_conv_all_nth)

lemma expandable_front:
  "list_all2 (\<lambda>a b. a = b \<or> a = 1) (replicate (length b1) 1 @ s) (b1 @ s)"
  by (intro list_all2_appendI) (simp_all add: list_all2_conv_all_nth)

lemma pairwise_diff_value:
  assumes s1: "shape ls1 = [prod_list b1, d]" and w1: "length (data ls1) = prod_list b1 * d"
    and s2: "shape ls2 = [prod_list b2, d]" and w2: "length (data ls2) = prod_list b2 * d"
  shows "pairwise_diff b1 b2 ls1 ls2 =
     Inr \<lparr>shape = b1 @ b2 @ [d],
          data = concat (map (\<lambda>x. concat (map (\<lambda>y. map (\<lambda>(u, v). u - v) (zip x y))
                                                     (rows (prod_list b2) d (data ls2))))
                             (rows (prod_list b1) d (data ls1)))\<rparr>"
proof -
  let ?l1 = "ls1\<lparr>shape := b1 @ [d]\<rparr>" and ?l2 = "ls2\<lparr>shape := b2 @ [d]\<rparr>"
  let ?u1 = "ls1\<lparr>shape := b1 @ replicate (length b2) 1 @ [d]\<rparr>"
  let ?u2 = "ls2\<lparr>shape := replicate (length b1) 1 @ b2 @ [d]\<rparr>"
  let ?e1 = "\<lparr>shape = b1 @ b2 @ [d],
              data = concat (map (\<lambda>r. concat (replicate (prod_list b2) r))
                                 (rows (prod_list b1) d (data ls1)))\<rparr>"
  let ?e2 = "\<lparr>shape = b1 @ b2 @ [d], data = concat (replicate (prod_list b1) (data ls2))\<rparr>"
  have v1: "size_at ls1 (- 1) = Inr d" "view ls1 (b1 @ [d]) = Inr ?l1"
    using s1 by (simp_all add: size_at_def view_def numel_def)
  have v2: "size_at ls2 (- 1) = Inr d" "view ls2 (b2 @ [d]) = Inr ?l2"
    using s2 by (simp_all add: size_at_def view_def numel_def)
  have q2: "unsqueeze_loop 0 b1 ?l2 = Inr ?u2"
    by (simp add: unsqueeze_loop_front)
  have q1: "unsqueeze_loop (- 2) b2 ?l1 = Inr ?u1"
    using unsqueeze_loop_before_last [of ?l1 b1 d b2] by simp
  have x1: "expand (b1 @ b2 @ [d]) ?u1 = Inr ?e1"
    using expandable_mid [of b1 b2 d] expand_data_mid [OF refl, of "data ls1" b1 d b2] w1
    by (simp add: expand_def Let_def)
  have x2: "expand (b1 @ b2 @ [d]) ?u2 = Inr ?e2"
    using expandable_front [of b1 "b2 @ [d]"]
      expand_data_front [OF refl, of "data ls2" "b2 @ [d]" b1] w2
    by (simp add: expand_def Let_def)
  have rl: "\<And>x. x \<in> set (rows (prod_list b1) d (data ls1)) \<Longrightarrow> length x = d"
    using rows_length_each [OF w1] .
  have sub: "tensor_sub ?e1 ?e2 = Inr \<lparr>shape = b1 @ b2 @ [d],
          data = concat (map (\<lambda>x. concat (map (\<lambda>y. map (\<lambda>(u, v). u - v) (zip x y))
                                                     (rows (prod_list b2) d (data ls2))))
                             (rows (prod_list b1) d (data ls1)))\<rparr>"
    using map_zip_pairwise [OF rl w2, of "rows (prod_list b1) d (data ls1)" "\<lambda>(u, v). u - v"]
    by (simp add: tensor_sub_def)
  have d1: "size_at ?u1 (- 1) = Inr d" using size_at_last [of ?u1 "b1 @ replicate (length b2) 1" d] by simp
  have d2: "size_at ?e1 (- 1) = Inr d" using size_at_last [of ?e1 "b1 @ b2" d] by simp
  show ?thesis
    unfolding pairwise_diff_def v1 bind_err_simps v2 q2 q1 d1 x1 d2 x2 sub ..
qed

lemma length_pairwise [simp]: "length (pairwise f xs ys) = length xs * length ys"
  by (induction xs) (simp_all add: pairwise_def)


lemma norm_last_rows:
  assumes "shape x = s @ [d]" "data x = concat R" "length R = prod_list s"
    "\<And>r. r \<in> set R \<Longrightarrow> length r = d" "pp = PosInf \<longrightarrow> 0 < d"
  shows "norm_last pp x = Inr \<lparr>shape = s, data = map (vector_norm pp) R\<rparr>"
proof -
  have "rows (prod_list s) d (concat R) = R"
    using assms(3,4) by (rule rows_concat)
  with assms show ?thesis by (auto simp: norm_last_def)
qed

lemma flatten_batch_value:
  "shape path = b @ [l, c] \<Longrightarrow> 0 < l * c \<Longrightarrow>
   flatten_batch path = Inr (path\<lparr>shape := [prod_list b, l, c]\<rparr>)"
  using size_at_last [of path "b @ [l]" c]
  by (simp add: flatten_batch_def view_infer_def numel_def)

lemma batch_dims_value [simp]: "shape path = b @ [l, c] \<Longrightarrow> batch_dims path = b"
  by (simp add: batch_dims_def)

lemma Logsignature_call_value:
  "shape path = b @ [l, c] \<Longrightarrow>
   Logsignature_call sg dep (path\<lparr>shape := [prod_list b, l, c]\<rparr>) =
     Inr \<lparr>shape = [prod_list b, logsignature_channels sg c dep],
          data = concat (logsignatures sg dep path)\<rparr>"
  by (simp add: Logsignature_call_def logsignatures_def Let_def butlast_append)

lemma length_logsignatures:
  "shape path = b @ [l, c] \<Longrightarrow> length (logsignatures sg dep path) = prod_list b"
  by (simp add: logsignatures_def Let_def)

lemma length_logsignatures_each:
  "shape path = b @ [l, c] \<Longrightarrow> r \<in> set (logsignatures sg dep path) \<Longrightarrow>
   length r = logsignature_channels sg c dep"
  by (auto simp: logsignatures_def Let_def)

lemma length_row_times_matrix [simp]: "length (row_times_matrix x m n) = n"
  by (simp add: row_times_matrix_def)

lemma length_transform_row:
  "parameter_fits self d \<Longrightarrow> length r = d \<Longrightarrow> length (transform_row self r) = d"
  by (auto simp: parameter_fits_def transform_row_def wf_tensor_def split: option.splits if_splits)

lemma apply_pseudometric_rows:
  assumes fits: "parameter_fits self d" and sh: "shape x = s @ [d]" and dt: "data x = concat R"
    and len: "length R = prod_list s" and each: "\<And>r. r \<in> set R \<Longrightarrow> length r = d"
  shows "apply_pseudometric self x = Inr \<lparr>shape = s @ [d], data = concat (map (transform_row self) R)\<rparr>"
proof (cases "pseudometric self")
  case False
  then have "map (transform_row self) R = R" by (intro map_idI) (simp add: transform_row_def)
  with False sh dt show ?thesis by (simp add: apply_pseudometric_def)
next
  case True
  with fits obtain m where m: "linear self = Some m" "wf_tensor m"
      "shape m = (if metric_type self = ''general'' then [d, d] else [d])"
    by (auto simp: parameter_fits_def split: option.splits)
  have rw: "rows (prod_list s) d (concat R) = R" using len each by (rule rows_concat)
  show ?thesis
  proof (cases "metric_type self = ''general''")
    case g: True
    have eq: "map (\<lambda>r. row_times_matrix r (rows d d (data m)) d) R = map (transform_row self) R"
      using each True g m by (intro map_cong) (simp_all add: transform_row_def)
    from True g m sh dt rw show ?thesis
      by (simp add: apply_pseudometric_def matmul_def eq)
  next
    case ng: False
    have eq: "map (\<lambda>r. map (\<lambda>(a, b). a * b) (zip r (data m))) R = map (transform_row self) R"
      using True ng m by (intro map_cong) (simp_all add: transform_row_def)
    from True ng m sh dt rw show ?thesis
      by (simp add: apply_pseudometric_def mul_def eq)
  qed
qed

lemma expand_time_channel_shape:
  "\<exists>t. expand_time_channel b tc = Inr t \<and> shape t = rev b @ shape tc"
proof (induction b arbitrary: tc)
  case Nil
  then show ?case by simp
next
  case (Cons n b)
  let ?tc' = "\<lparr>shape = n # shape tc, data = expand_data (1 # shape tc) (n # shape tc) (data tc)\<rparr>"
  have "list_all2 (\<lambda>a b. a = b \<or> a = 1) (shape tc) (shape tc)"
    by (simp add: list_all2_conv_all_nth)
  then have "expand (n # shape tc) (tc\<lparr>shape := 1 # shape tc\<rparr>) = Inr ?tc'"
    by (simp add: expand_def Let_def)
  with Cons.IH [of ?tc'] show ?case by simp
qed

lemma expand_time_channel_value:
  "length (data tc) = prod_list (shape tc) \<Longrightarrow>
   expand_time_channel b tc =
     Inr \<lparr>shape = rev b @ shape tc, data = concat (replicate (prod_list b) (data tc))\<rparr>"
proof (induction b arbitrary: tc)
  case Nil
  then show ?case by simp
next
  case (Cons n b)
  let ?tc' = "\<lparr>shape = n # shape tc, data = concat (replicate n (data tc))\<rparr>"
  have refl: "list_all2 (\<lambda>a b. a = b \<or> a = 1) (shape tc) (shape tc)"
    by (simp add: list_all2_conv_all_nth)
  have "expand_data (replicate 1 1 @ shape tc) ([n] @ shape tc) (data tc)
      = concat (replicate (prod_list [n]) (data tc))"
    using Cons.prems by (intro expand_data_front) simp_all
  with refl have ex: "expand (n # shape tc) (tc\<lparr>shape := 1 # shape tc\<rparr>) = Inr ?tc'"
    by (simp add: expand_def Let_def)
  have "length (data ?tc') = prod_list (shape ?tc')"
    using Cons.prems by (simp add: length_concat sum_list_replicate)
  moreover have "concat (replicate (prod_list b) (concat (replicate n (data tc))))
      = concat (replicate (prod_list (n # b)) (data tc))"
    using concat_replicate_times [of "prod_list b" n "data tc"] by (simp add: mult.commute)
  ultimately show ?case using ex Cons.IH [of ?tc'] by simp
qed

lemma rows_singletons: "length xs = n \<Longrightarrow> rows n 1 xs = map (\<lambda>t. [t]) xs"
proof (induction n arbitrary: xs)
  case 0
  then show ?case by simp
next
  case (Suc n)
  then obtain x rest where "xs = x # rest" "length rest = n" by (cases xs) auto
  with Suc.IH [of rest] show ?case by simp
qed

lemma cat_time_value:
  assumes tg: "length ts = prod_list b * l" and sh: "shape path = b @ [l, c]"
  shows "cat_last \<lparr>shape = b @ [l, 1], data = ts\<rparr> path =
     Inr \<lparr>shape = b @ [l, Suc c],
          data = concat (map (\<lambda>(t, x). t # x) (zip ts (rows (prod_list b * l) c (data path))))\<rparr>"
proof -
  have "rows (prod_list b * l) 1 ts = map (\<lambda>t. [t]) ts"
    using tg by (intro rows_singletons) simp
  then have "map (\<lambda>(x, y). x @ y) (zip (rows (prod_list b * l) 1 ts) (rows (prod_list b * l) c (data path)))
      = map (\<lambda>(t, x). t # x) (zip ts (rows (prod_list b * l) c (data path)))"
    by (simp add: zip_map1 case_prod_unfold)
  moreover have "b @ [l, 1] \<noteq> [0]" "b @ [l, c] \<noteq> [0]" by (cases b; simp)+
  ultimately show ?thesis using sh
    by (simp add: cat_last_def butlast_append)
qed

lemma augment_time_value:
  assumes tg: "shape tgrid = [l]" "length (data tgrid) = l"
    and s1: "shape path1 = b1 @ [l, c]" and p1: "rev b1 = b1"
    and s2: "shape path2 = b2 @ [l, c]" and p2: "rev b2 = b2"
  shows "augment_time tgrid path1 path2 = Inr (time_augmented tgrid path1, time_augmented tgrid path2)"
proof -
  let ?tc = "tgrid\<lparr>shape := shape tgrid @ [1]\<rparr>"
  have wf: "length (data ?tc) = prod_list (shape ?tc)" using tg by simp
  have e: "expand_time_channel b ?tc
      = Inr \<lparr>shape = b @ [l, 1], data = concat (replicate (prod_list b) (data tgrid))\<rparr>"
    if "rev b = b" for b
    using expand_time_channel_value [OF wf, of b] that tg by simp
  have c: "cat_last \<lparr>shape = b @ [l, 1], data = concat (replicate (prod_list b) (data tgrid))\<rparr> path
      = Inr (time_augmented tgrid path)"
    if "shape path = b @ [l, c]" for b path
  proof -
    have "length (concat (replicate (prod_list b) (data tgrid))) = prod_list b * l"
      using tg by (simp add: length_concat sum_list_replicate)
    from cat_time_value [OF this that] that show ?thesis
      by (simp add: time_augmented_def butlast_append)
  qed
  show ?thesis
    using e [OF p1] e [OF p2] c [OF s1] c [OF s2] s1 s2
    by (simp add: augment_time_def)
qed

lemma shape_time_augmented:
  "shape path = b @ [l, c] \<Longrightarrow> shape (time_augmented tgrid path) = b @ [l, Suc c]"
  by (simp add: time_augmented_def butlast_append Let_def)

lemma concat_concat_map: "concat (concat (map f xs)) = concat (map (\<lambda>x. concat (f x)) xs)"
  by (induction xs) simp_all

lemma forward_after_augment:
  assumes aug: "(if include_time self then augment_time tgrid path1 path2 else Inr (path1, path2))
                  = Inr (q1, q2)"
    and b: "batch_dims path1 = b1" "batch_dims path2 = b2"
    and s1: "shape q1 = b1 @ [l, c]" and s2: "shape q2 = b2 @ [l, c]" and pos: "0 < l * c"
    and lib: "logsignature self = Logsignature_call sg dep"
    and fits: "parameter_fits self (logsignature_channels sg c dep)"
    and inf: "p_exp self = PosInf \<longrightarrow> 0 < logsignature_channels sg c dep"
  shows "forward self tgrid path1 path2 =
     Inr \<lparr>shape = b1 @ b2,
          data = pairwise (discrepancy_row self) (logsignatures sg dep q1) (logsignatures sg dep q2)\<rparr>"
proof -
  let ?d = "logsignature_channels sg c dep"
  let ?L1 = "logsignatures sg dep q1" and ?L2 = "logsignatures sg dep q2"
  let ?ls1 = "\<lparr>shape = [prod_list b1, ?d], data = concat ?L1\<rparr>"
  let ?ls2 = "\<lparr>shape = [prod_list b2, ?d], data = concat ?L2\<rparr>"
  let ?sub = "\<lambda>x y. map (\<lambda>(u, v). u - v) (zip x y)"
  let ?D = "concat (map (\<lambda>x. map (?sub x) ?L2) ?L1)"
  have f1: "flatten_batch q1 = Inr (q1\<lparr>shape := [prod_list b1, l, c]\<rparr>)"
    using s1 pos by (rule flatten_batch_value)
  have f2: "flatten_batch q2 = Inr (q2\<lparr>shape := [prod_list b2, l, c]\<rparr>)"
    using s2 pos by (rule flatten_batch_value)
  have g1: "logsignature self (q1\<lparr>shape := [prod_list b1, l, c]\<rparr>) = Inr ?ls1"
    unfolding lib using s1 by (rule Logsignature_call_value)
  have g2: "logsignature self (q2\<lparr>shape := [prod_list b2, l, c]\<rparr>) = Inr ?ls2"
    unfolding lib using s2 by (rule Logsignature_call_value)
  have e1: "\<And>r. r \<in> set ?L1 \<Longrightarrow> length r = ?d" using length_logsignatures_each [OF s1] .
  have e2: "\<And>r. r \<in> set ?L2 \<Longrightarrow> length r = ?d" using length_logsignatures_each [OF s2] .
  have n1: "length ?L1 = prod_list b1" using s1 by (rule length_logsignatures)
  have n2: "length ?L2 = prod_list b2" using s2 by (rule length_logsignatures)
  have w1: "length (concat ?L1) = prod_list b1 * ?d"
    using e1 n1 by (simp add: length_concat sum_list_triv cong: map_cong)
  have w2: "length (concat ?L2) = prod_list b2 * ?d"
    using e2 n2 by (simp add: length_concat sum_list_triv cong: map_cong)
  have r1: "rows (prod_list b1) ?d (concat ?L1) = ?L1" using n1 e1 by (rule rows_concat)
  have r2: "rows (prod_list b2) ?d (concat ?L2) = ?L2" using n2 e2 by (rule rows_concat)
  have pd: "pairwise_diff b1 b2 ?ls1 ?ls2 = Inr \<lparr>shape = (b1 @ b2) @ [?d], data = concat ?D\<rparr>"
    using pairwise_diff_value [of ?ls1 b1 ?d ?ls2 b2] w1 w2 r1 r2
    by (simp add: concat_concat_map)
  have lenD: "length ?D = prod_list (b1 @ b2)"
    using n1 n2 by (simp add: length_concat sum_list_triv o_def)
  have eachD: "\<And>r. r \<in> set ?D \<Longrightarrow> length r = ?d"
    using e1 e2 by auto
  have ap: "apply_pseudometric self \<lparr>shape = (b1 @ b2) @ [?d], data = concat ?D\<rparr>
      = Inr \<lparr>shape = (b1 @ b2) @ [?d], data = concat (map (transform_row self) ?D)\<rparr>"
    using fits _ _ lenD eachD by (rule apply_pseudometric_rows) simp_all
  have eachT: "\<And>r. r \<in> set (map (transform_row self) ?D) \<Longrightarrow> length r = ?d"
    using eachD length_transform_row [OF fits] by auto
  have nm: "norm_last (p_exp self) \<lparr>shape = (b1 @ b2) @ [?d], data = concat (map (transform_row self) ?D)\<rparr>
      = Inr \<lparr>shape = b1 @ b2, data = map (vector_norm (p_exp self)) (map (transform_row self) ?D)\<rparr>"
    using _ _ _ eachT inf by (rule norm_last_rows) (simp_all add: lenD)
  have fin: "map (vector_norm (p_exp self)) (map (transform_row self) ?D)
      = pairwise (discrepancy_row self) ?L1 ?L2"
  proof -
    have "discrepancy_row self = (\<lambda>x y. vector_norm (p_exp self) (transform_row self (?sub x y)))"
      by (intro ext) (simp add: discrepancy_row_def)
    then show ?thesis by (simp add: pairwise_def map_concat o_def)
  qed
  show ?thesis
    unfolding forward_def Let_def aug b bind_err_simps prod.case f1 f2 g1 g2 pd ap nm fin ..
qed

section \<open>Construction\<close>

text \<open>
  C5. A \<^verbatim>\<open>metric_type\<close> other than \<^verbatim>\<open>'general'\<close> and \<^verbatim>\<open>'diagonal'\<close> makes both
  constructors fail with the assertion's error, with no tensor allocated, whatever the
  other arguments are; \<^verbatim>\<open>'bogus'\<close> is such a value.
\<close>

theorem metric_type_rejected:
  "mt \<noteq> ''general'' \<Longrightarrow> mt \<noteq> ''diagonal'' \<Longrightarrow>
   L2Discrepancy_init src in_ch pm mt = (Inl AssertionError, []) \<and>
   LogsignatureDiscrepancy_init sgo src in_ch dep pp it pm mt = (Inl AssertionError, [])"
  by (simp add: L2Discrepancy_init_def LogsignatureDiscrepancy_init_def)

theorem metric_type_rejected_witness:
  "''bogus'' \<noteq> ''general'' \<and> ''bogus'' \<noteq> ''diagonal'' \<and>
   L2Discrepancy_init (\<lambda>_. 0) 3 True ''bogus'' = (Inl AssertionError, []) \<and>
   LogsignatureDiscrepancy_init None (\<lambda>_. 0) 3 2 (Finite 2) True True ''bogus''
     = (Inl AssertionError, [])"
  using metric_type_rejected [of "''bogus''" "\<lambda>_. 0" 3 True None 2 "Finite 2" True]
  by simp

text \<open>
  C6. Without the signature library (\<^verbatim>\<open>signatory is None\<close>) and with a valid
  \<^verbatim>\<open>metric_type\<close>, constructing a \<^verbatim>\<open>LogsignatureDiscrepancy\<close> fails with the import
  error (the specification's DependencyMissingError) and allocates nothing; with the
  library the constructor never fails with that error. The assertion on
  \<^verbatim>\<open>metric_type\<close> comes first: with an invalid value the error is the assertion's,
  library or not.
\<close>

theorem signatory_missing:
  "(mt \<in> set [''general'', ''diagonal''] \<longrightarrow>
      LogsignatureDiscrepancy_init None src in_ch dep pp it pm mt = (Inl ImportError, [])) \<and>
   fst (LogsignatureDiscrepancy_init (Some sg) src in_ch dep pp it pm mt) \<noteq> Inl ImportError"
  by (simp add: LogsignatureDiscrepancy_init_def Let_def)

theorem signatory_missing_witness:
  "''general'' \<in> set [''general'', ''diagonal''] \<and>
   LogsignatureDiscrepancy_init None (\<lambda>_. 0) 1 1 (Finite 2) True True ''general''
     = (Inl ImportError, []) \<and>
   fst (LogsignatureDiscrepancy_init (Some increment_signatory) (\<lambda>_. 0) 1 1 (Finite 2) True True
          ''general'') \<noteq> Inl ImportError"
  using signatory_missing [of "''general''" "\<lambda>_. 0" 1 1 "Finite 2" True True increment_signatory]
  by simp

text \<open>
  Stated for every argument list, the property fails at \<^verbatim>\<open>metric_type='bogus'\<close>:
  without the library the error is still the assertion's, not the import error.
\<close>

theorem signatory_missing_counterexample:
  "fst (LogsignatureDiscrepancy_init None (\<lambda>_. 0) 1 1 (Finite 2) True True ''bogus'')
     \<noteq> Inl ImportError"
  by (simp add: LogsignatureDiscrepancy_init_def)

text \<open>
  C8. With \<^verbatim>\<open>pseudometric=False\<close> both constructors still reject an unknown
  \<^verbatim>\<open>metric_type\<close>, although a valid value changes nothing but the stored attribute:
  the parameter is the uninitialised scalar, or absent.
\<close>

theorem metric_type_checked_first:
  "(mt \<notin> set [''general'', ''diagonal''] \<longrightarrow>
      fst (L2Discrepancy_init src in_ch False mt) = Inl AssertionError \<and>
      fst (LogsignatureDiscrepancy_init sgo src in_ch dep pp it False mt) = Inl AssertionError) \<and>
   (mt \<in> set [''general'', ''diagonal''] \<longrightarrow>
      (\<exists>m tr. L2Discrepancy_init src in_ch False mt = (Inr m, tr) \<and> arg m = torch_empty src []) \<and>
      (\<exists>m tr. LogsignatureDiscrepancy_init (Some sg) src in_ch dep pp it False mt = (Inr m, tr) \<and>
         linear m = None \<and> tr = []))"
  by (simp add: L2Discrepancy_init_def LogsignatureDiscrepancy_init_def)

theorem metric_type_checked_first_witness:
  "''bogus'' \<notin> set [''general'', ''diagonal''] \<and>
   fst (L2Discrepancy_init (\<lambda>_. 0) 3 False ''bogus'') = Inl AssertionError \<and>
   fst (LogsignatureDiscrepancy_init (Some increment_signatory) (\<lambda>_. 0) 3 1 (Finite 2) True False
          ''bogus'') = Inl AssertionError \<and>
   ''diagonal'' \<in> set [''general'', ''diagonal''] \<and>
   (\<exists>m tr. L2Discrepancy_init (\<lambda>_. 0) 3 False ''diagonal'' = (Inr m, tr) \<and>
      arg m = torch_empty (\<lambda>_. 0) [])"
  using metric_type_checked_first [of "''bogus''" "\<lambda>_. 0" 3 "Some increment_signatory" 1 "Finite 2" True increment_signatory]
    metric_type_checked_first [of "''diagonal''" "\<lambda>_. 0" 3 "Some increment_signatory" 1 "Finite 2" True increment_signatory]
  by simp

text \<open>
  C9. A constructed \<^verbatim>\<open>L2Discrepancy\<close> has an \<open>arg\<close> of shape \<open>(n, n)\<close> for a general
  pseudometric, \<open>(n)\<close> for a diagonal one and \<open>()\<close> without pseudometric, holding as many
  elements as its shape says; \<^verbatim>\<open>forward\<close> hands this \<open>arg\<close> to the kernel as fourth
  argument and leaves the module as it was.
\<close>

theorem arg_shape:
  "L2Discrepancy_init src n pm mt = (Inr m, tr) \<Longrightarrow>
   (pm \<and> mt = ''general'' \<longrightarrow> shape (arg m) = [n, n] \<and> tr = [[n, n]]) \<and>
   (pm \<and> mt = ''diagonal'' \<longrightarrow> shape (arg m) = [n] \<and> tr = [[n]]) \<and>
   (\<not> pm \<longrightarrow> shape (arg m) = [] \<and> tr = [[]]) \<and>
   wf_tensor (arg m) \<and>
   CppDiscrepancy_forward fn m time path1 path2 = (fn time path1 path2 (arg m), m)"
  by (auto simp: L2Discrepancy_init_def CppDiscrepancy_forward_def wf_tensor_def torch_empty_def
      kaiming_uniform_inplace_def uniform_inplace_def split: if_splits)

theorem arg_shape_witness:
  "L2Discrepancy_init (\<lambda>_. 1) 2 True ''diagonal''
     = (Inr \<lparr>in_channels = 2, pseudometric = True, metric_type = ''diagonal'',
              arg = \<lparr>shape = [2], data = [11 / 10, 11 / 10]\<rparr>\<rparr>, [[2]]) \<and>
   shape (arg \<lparr>in_channels = 2, pseudometric = True, metric_type = ''diagonal'',
              arg = \<lparr>shape = [2], data = [11 / 10, 11 / 10]\<rparr>\<rparr>) = [2]"
proof -
  have h: "L2Discrepancy_init (\<lambda>_. 1) 2 True ''diagonal''
     = (Inr \<lparr>in_channels = 2, pseudometric = True, metric_type = ''diagonal'',
              arg = \<lparr>shape = [2], data = [11 / 10, 11 / 10]\<rparr>\<rparr>, [[2]])"
    by (simp add: L2Discrepancy_init_def torch_empty_def uniform_inplace_def upt_rec)
  from arg_shape [OF h] h show ?thesis by simp
qed

text \<open>
  A constructed \<^verbatim>\<open>LogsignatureDiscrepancy\<close> keeps its configuration, calls the library
  at the given depth, and has a parameter of the size of the logsignature of a path
  with \<open>in_channels\<close> channels, or one more with \<^verbatim>\<open>include_time\<close>: a square matrix
  for \<^verbatim>\<open>'general'\<close>, a vector for \<^verbatim>\<open>'diagonal'\<close>, none without pseudometric.
\<close>

theorem linear_shape:
  "LogsignatureDiscrepancy_init (Some sg) src in_ch dep pp it pm mt = (Inr m, tr) \<Longrightarrow>
   parameter_fits m (logsignature_channels sg (if it then in_ch + 1 else in_ch) dep) \<and>
   (\<not> pm \<longrightarrow> linear m = None) \<and>
   include_time m = it \<and> pseudometric m = pm \<and> metric_type m = mt \<and> p_exp m = pp \<and>
   depth m = dep \<and> logsignature m = Logsignature_call sg dep"
  by (auto simp: LogsignatureDiscrepancy_init_def parameter_fits_def wf_tensor_def Let_def
      torch_randn_def kaiming_uniform_inplace_def uniform_inplace_def split: if_splits)

theorem linear_shape_witness:
  "\<exists>m tr. LogsignatureDiscrepancy_init (Some increment_signatory) (\<lambda>_. 1) 2 1 (Finite 2) True True
             ''diagonal'' = (Inr m, tr) \<and>
     linear m = Some \<lparr>shape = [3], data = [11 / 10, 11 / 10, 11 / 10]\<rparr> \<and>
     parameter_fits m 3"
proof -
  obtain m tr where h: "LogsignatureDiscrepancy_init (Some increment_signatory) (\<lambda>_. 1) 2 1
      (Finite 2) True True ''diagonal'' = (Inr m, tr)"
    by (simp add: LogsignatureDiscrepancy_init_def Let_def)
  then have "linear m = Some \<lparr>shape = [3], data = [11 / 10, 11 / 10, 11 / 10]\<rparr>"
    by (auto simp: LogsignatureDiscrepancy_init_def Let_def increment_signatory_def
        torch_randn_def uniform_inplace_def upt_rec)
  moreover from linear_shape [OF h] have "parameter_fits m 3"
    by (simp add: increment_signatory_def)
  ultimately show ?thesis using h by blast
qed

section \<open>LogsignatureDiscrepancy.forward: results\<close>




lemma rows_numeral [simp]: "rows (numeral k) n xs = take n xs # rows (pred_numeral k) n (drop n xs)"
  by (simp add: numeral_eq_Suc)

text \<open>The value of \<^verbatim>\<open>forward\<close> wherever the time channel fits the path.\<close>

lemma forward_value:
  assumes tg: "shape tgrid = [l]" "length (data tgrid) = l"
    and s1: "shape path1 = b1 @ [l, c]" and s2: "shape path2 = b2 @ [l, c]"
    and sym: "include_time self \<longrightarrow> rev b1 = b1 \<and> rev b2 = b2"
    and c': "c' = (if include_time self then Suc c else c)" and pos: "0 < l * c'"
    and lib: "logsignature self = Logsignature_call sg dep"
    and fits: "parameter_fits self (logsignature_channels sg c' dep)"
    and inf: "p_exp self = PosInf \<longrightarrow> 0 < logsignature_channels sg c' dep"
    and q1: "q1 = (if include_time self then time_augmented tgrid path1 else path1)"
    and q2: "q2 = (if include_time self then time_augmented tgrid path2 else path2)"
  shows "forward self tgrid path1 path2 =
     Inr \<lparr>shape = b1 @ b2,
          data = pairwise (discrepancy_row self) (logsignatures sg dep q1) (logsignatures sg dep q2)\<rparr>"
proof -
  have aug: "(if include_time self then augment_time tgrid path1 path2 else Inr (path1, path2))
      = Inr (q1, q2)"
    using augment_time_value [OF tg s1 _ s2] sym q1 q2 by simp
  have sq1: "shape q1 = b1 @ [l, c']" using q1 c' s1 shape_time_augmented [OF s1] by simp
  have sq2: "shape q2 = b2 @ [l, c']" using q2 c' s2 shape_time_augmented [OF s2] by simp
  have b: "batch_dims path1 = b1" "batch_dims path2 = b2" using s1 s2 by simp_all
  show ?thesis
    using aug b sq1 sq2 pos lib fits inf by (rule forward_after_augment)
qed

text \<open>
  C1. The result of \<^verbatim>\<open>forward\<close> should have the shape \<open>(B1..., B2...)\<close> for every pair of
  batch shapes. With \<^verbatim>\<open>include_time\<close> set it has not: whenever one of the two batch
  shapes differs from its own reverse, as \<open>(2, 3)\<close> does, the call fails, because the
  time channel is built with the batch sizes in reverse order and cannot be
  concatenated with the path.
\<close>

theorem forward_fails_on_asymmetric_batch:
  assumes it: "include_time self" and tg: "shape tgrid = [l]"
    and s1: "shape path1 = b1 @ [l, c1]" and s2: "shape path2 = b2 @ [l, c2]"
    and asym: "rev b1 \<noteq> b1 \<or> rev b2 \<noteq> b2"
  shows "forward self tgrid path1 path2 = Inl RuntimeError"
proof -
  let ?tc = "tgrid\<lparr>shape := shape tgrid @ [1]\<rparr>"
  obtain t1 where t1: "expand_time_channel b1 ?tc = Inr t1" "shape t1 = rev b1 @ [l, 1]"
    using expand_time_channel_shape [of b1 ?tc] tg by auto
  obtain t2 where t2: "expand_time_channel b2 ?tc = Inr t2" "shape t2 = rev b2 @ [l, 1]"
    using expand_time_channel_shape [of b2 ?tc] tg by auto
  have ne: "b @ [l, c] \<noteq> [0]" for b :: "nat list" and c by (cases b) simp_all
  have c1: "cat_last t1 path1 = Inl RuntimeError" if "rev b1 \<noteq> b1"
    using that t1 s1 ne [of "rev b1" 1] ne [of b1 c1] by (simp add: cat_last_def butlast_append)
  have c2: "cat_last t2 path2 = Inl RuntimeError" if "rev b2 \<noteq> b2"
    using that t2 s2 ne [of "rev b2" 1] ne [of b2 c2] by (simp add: cat_last_def butlast_append)
  have c1': "cat_last t1 path1 = Inl RuntimeError \<or> (\<exists>p. cat_last t1 path1 = Inr p)"
    by (auto simp: cat_last_def Let_def)
  have "augment_time tgrid path1 path2 = Inl RuntimeError"
    using asym c1 c2 c1' t1 t2 s1 s2 by (auto simp: augment_time_def)
  with it show ?thesis by (simp add: forward_def)
qed

theorem forward_fails_on_asymmetric_batch_witness:
  "forward \<lparr>in_channels = 1, pseudometric = False, metric_type = ''general'', depth = 1,
             p_exp = Finite 2, include_time = True, linear = None,
             logsignature = Logsignature_call increment_signatory 1\<rparr>
     \<lparr>shape = [2], data = [0, 1]\<rparr>
     \<lparr>shape = [2, 3, 2, 1], data = [0, 1, 0, 2, 0, 3, 0, 4, 0, 5, 0, 6]\<rparr>
     \<lparr>shape = [2, 1], data = [0, 1]\<rparr>
   = Inl RuntimeError"
  using forward_fails_on_asymmetric_batch [of
      "\<lparr>in_channels = 1, pseudometric = False, metric_type = ''general'', depth = 1,
             p_exp = Finite 2, include_time = True, linear = None,
             logsignature = Logsignature_call increment_signatory 1\<rparr>"
      "\<lparr>shape = [2], data = [0, 1]\<rparr>" 2
      "\<lparr>shape = [2, 3, 2, 1], data = [0, 1, 0, 2, 0, 3, 0, 4, 0, 5, 0, 6]\<rparr>" "[2, 3]" 1
      "\<lparr>shape = [2, 1], data = [0, 1]\<rparr>" "[]" 1]
  by simp

text \<open>
  C7. With \<^verbatim>\<open>include_time\<close> the time channel should be broadcast to the batch shape of
  the path. The loop that builds it yields the shape \<open>rev B @ (L, 1)\<close> for a path of
  batch shape \<open>B\<close> and a time grid of shape \<open>(L)\<close>: the batch sizes are reversed.
\<close>

theorem time_channel_reversed:
  "\<exists>tc t. unsqueeze (- 1) tgrid = Inr tc \<and> expand_time_channel (batch_dims path) tc = Inr t \<and>
     shape t = rev (batch_dims path) @ shape tgrid @ [1]"
  using expand_time_channel_shape [of "batch_dims path" "tgrid\<lparr>shape := shape tgrid @ [1]\<rparr>"]
  by simp

theorem time_channel_reversed_witness:
  "\<exists>tc t. unsqueeze (- 1) \<lparr>shape = [2], data = [0, 1]\<rparr> = Inr tc \<and>
     expand_time_channel [2, 3] tc = Inr t \<and> shape t = [3, 2, 2, 1]"
  using time_channel_reversed [of "\<lparr>shape = [2], data = [0, 1]\<rparr>"
      "\<lparr>shape = [2, 3, 2, 1], data = [0, 1, 0, 2, 0, 3, 0, 4, 0, 5, 0, 6]\<rparr>"]
  by (simp add: batch_dims_def)

text \<open>
  Where the time channel can be concatenated (without \<^verbatim>\<open>include_time\<close>, or with batch
  shapes that read the same in both directions) \<^verbatim>\<open>forward\<close> returns a tensor of shape
  \<open>(B1..., B2...)\<close> that holds the discrepancy of every path of the first batch with
  every path of the second.
\<close>

theorem forward_pairwise:
  assumes tg: "shape tgrid = [l]" "length (data tgrid) = l"
    and s1: "shape path1 = b1 @ [l, c]" and s2: "shape path2 = b2 @ [l, c]"
    and sym: "include_time self \<longrightarrow> rev b1 = b1 \<and> rev b2 = b2"
    and c': "c' = (if include_time self then Suc c else c)" and pos: "0 < l * c'"
    and lib: "logsignature self = Logsignature_call sg dep"
    and fits: "parameter_fits self (logsignature_channels sg c' dep)"
    and inf: "p_exp self = PosInf \<longrightarrow> 0 < logsignature_channels sg c' dep"
    and q1: "q1 = (if include_time self then time_augmented tgrid path1 else path1)"
    and q2: "q2 = (if include_time self then time_augmented tgrid path2 else path2)"
  shows "forward self tgrid path1 path2 =
     Inr \<lparr>shape = b1 @ b2,
          data = pairwise (discrepancy_row self) (logsignatures sg dep q1) (logsignatures sg dep q2)\<rparr>"
  using tg s1 s2 sym c' pos lib fits inf q1 q2 by (rule forward_value)

theorem forward_pairwise_witness:
  "forward \<lparr>in_channels = 1, pseudometric = False, metric_type = ''general'', depth = 1,
             p_exp = PosInf, include_time = True, linear = None,
             logsignature = Logsignature_call increment_signatory 1\<rparr>
     \<lparr>shape = [2], data = [0, 1]\<rparr>
     \<lparr>shape = [2, 2, 1], data = [0, 1, 0, 3]\<rparr>
     \<lparr>shape = [2, 1], data = [0, 5]\<rparr>
   = Inr \<lparr>shape = [2], data = [4, 2]\<rparr>"
proof -
  let ?m = "\<lparr>in_channels = 1, pseudometric = False, metric_type = ''general'', depth = 1,
             p_exp = PosInf, include_time = True, linear = None,
             logsignature = Logsignature_call increment_signatory 1\<rparr>"
  let ?p1 = "\<lparr>shape = [2, 2, 1], data = [0, 1, 0, 3]\<rparr>"
  let ?p2 = "\<lparr>shape = [2, 1], data = [0, 5]\<rparr>"
  let ?g = "\<lparr>shape = [2], data = [0, 1]\<rparr>"
  have "forward ?m ?g ?p1 ?p2 =
     Inr \<lparr>shape = [2] @ [],
          data = pairwise (discrepancy_row ?m)
                   (logsignatures increment_signatory 1 (time_augmented ?g ?p1))
                   (logsignatures increment_signatory 1 (time_augmented ?g ?p2))\<rparr>"
    by (rule forward_pairwise [where l = 2 and c = 1 and c' = 2])
       (simp_all add: parameter_fits_def increment_signatory_def)
  moreover have "logsignatures increment_signatory 1 (time_augmented ?g ?p1) = [[1, 1], [1, 3]]"
    by (simp add: logsignatures_def batch_dims_def increment_signatory_def time_augmented_def
        eval_nat_numeral)
  moreover have "logsignatures increment_signatory 1 (time_augmented ?g ?p2) = [[1, 5]]"
    by (simp add: logsignatures_def batch_dims_def increment_signatory_def time_augmented_def
        eval_nat_numeral)
  ultimately show ?thesis
    by (simp add: pairwise_def discrepancy_row_def transform_row_def vector_norm_def)
qed




section \<open>L2Discrepancy.forward against the kernel's contract\<close>

text \<open>
  The closed form of a segment is exact: the squared norm of the interpolated difference
  has an antiderivative whose increment over the segment is \<open>segment_integral\<close>.
\<close>

lemma channel_antiderivative:
  fixes a k t0 :: real
  shows "((\<lambda>t. a * a * (t - t0) + a * k * (t - t0) ^ 2 + k * k / 3 * (t - t0) ^ 3)
            has_real_derivative (a + k * (t - t0)) * (a + k * (t - t0))) (at t)"
proof -
  have "((\<lambda>t. a * a * (t - t0) + a * k * (t - t0) ^ 2 + c * (t - t0) ^ 3)
            has_real_derivative (a * a + 2 * a * k * (t - t0) + 3 * c * (t - t0) ^ 2)) (at t)"
    for c :: real
    by (auto intro!: derivative_eq_intros simp: algebra_simps power2_eq_square)
  from this [of "k * k / 3"]
  have "((\<lambda>t. a * a * (t - t0) + a * k * (t - t0) ^ 2 + k * k / 3 * (t - t0) ^ 3)
            has_real_derivative (a * a + 2 * a * k * (t - t0) + k * k * (t - t0) ^ 2)) (at t)"
    by simp
  moreover have "a * a + 2 * a * k * (t - t0) + k * k * (t - t0) ^ 2
      = (a + k * (t - t0)) * (a + k * (t - t0))"
    by (simp add: algebra_simps power2_eq_square)
  ultimately show ?thesis by simp
qed

lemma channel_increment:
  fixes a b t0 t1 :: real
  assumes "t0 \<noteq> t1" and "k = (b - a) / (t1 - t0)"
  shows "a * a * (t1 - t0) + a * k * (t1 - t0) ^ 2 + k * k / 3 * (t1 - t0) ^ 3
           = (t1 - t0) / 3 * (a * a + a * b + b * b)"
proof -
  define h where "h = t1 - t0"
  have nz: "h \<noteq> 0" using assms(1) by (simp add: h_def)
  have k: "k * h = b - a" using nz assms(2) by (simp add: h_def)
  have "a * a * h + a * k * h ^ 2 + k * k / 3 * h ^ 3
      = a * a * h + a * (k * h) * h + (k * h) * (k * h) * h / 3"
    by (simp add: power2_eq_square power3_eq_cube)
  also have "\<dots> = h / 3 * (a * a + a * b + b * b)"
    unfolding k by (simp add: field_simps)
  finally show ?thesis by (simp add: h_def)
qed

lemma segment_pairs_exact:
  fixes t0 t1 :: real
  assumes "t0 \<noteq> t1"
  shows "\<exists>F. (\<forall>t. (F has_real_derivative
                  sum_list (map (\<lambda>(a, b). (a + (t - t0) / (t1 - t0) * (b - a)) * (a + (t - t0) / (t1 - t0) * (b - a))) ps)) (at t)) \<and>
             F t1 - F t0 = (t1 - t0) / 3 * sum_list (map (\<lambda>(a, b). a * a + a * b + b * b) ps)"
proof (induction ps)
  case Nil
  have "((\<lambda>t. 0::real) has_real_derivative 0) (at t)" for t by simp
  then show ?case by (intro exI [of _ "\<lambda>t. 0"]) simp
next
  case (Cons p ps)
  obtain a b where p: "p = (a, b)" by (cases p)
  let ?S = "\<lambda>t qs. sum_list (map (\<lambda>(a, b). (a + (t - t0) / (t1 - t0) * (b - a)) * (a + (t - t0) / (t1 - t0) * (b - a))) qs)"
  let ?I = "\<lambda>qs. sum_list (map (\<lambda>(a, b). a * a + a * b + b * b) qs)"
  from Cons obtain F where F: "\<And>t. (F has_real_derivative ?S t ps) (at t)"
      "F t1 - F t0 = (t1 - t0) / 3 * ?I ps"
    by blast
  define k where "k = (b - a) / (t1 - t0)"
  define G where "G = (\<lambda>t. a * a * (t - t0) + a * k * (t - t0) ^ 2 + k * k / 3 * (t - t0) ^ 3)"
  have G1: "(G has_real_derivative (a + k * (t - t0)) * (a + k * (t - t0))) (at t)" for t
    unfolding G_def by (rule channel_antiderivative)
  have G2: "G t1 - G t0 = (t1 - t0) / 3 * (a * a + a * b + b * b)"
    unfolding G_def using channel_increment [OF assms k_def] by simp
  have S: "?S t (p # ps) = (a + k * (t - t0)) * (a + k * (t - t0)) + ?S t ps" for t
    by (simp add: p k_def mult.commute)
  have "((\<lambda>t. G t + F t) has_real_derivative ?S t (p # ps)) (at t)" for t
    unfolding S using DERIV_add [OF G1 [of t] F(1) [of t]] .
  moreover have "(G t1 + F t1) - (G t0 + F t0) = (t1 - t0) / 3 * ?I (p # ps)"
  proof -
    have "(G t1 + F t1) - (G t0 + F t0) = (G t1 - G t0) + (F t1 - F t0)" by simp
    also have "\<dots> = (t1 - t0) / 3 * (a * a + a * b + b * b) + (t1 - t0) / 3 * ?I ps"
      by (simp only: G2 F(2))
    also have "\<dots> = (t1 - t0) / 3 * ?I (p # ps)"
      using p by (simp add: distrib_left)
    finally show ?thesis .
  qed
  ultimately show ?case by (intro exI [of _ "\<lambda>t. G t + F t"]) simp
qed

lemma segment_integral_exact:
  assumes "t0 \<noteq> t1"
  shows "\<exists>F. (\<forall>t. (F has_real_derivative sq_norm (interpolate t0 t1 d0 d1 t)) (at t)) \<and>
             F t1 - F t0 = segment_integral t0 t1 d0 d1"
  using segment_pairs_exact [OF assms, of "zip d0 d1"]
  by (simp add: sq_norm_def interpolate_def segment_integral_def o_def case_prod_unfold)

text \<open>
  The integral of a function over an interval, and over a grid. A segment's closed form
  is the integral of the squared norm of the interpolated difference over the segment;
  interpolation commutes with subtraction and with the pseudometric transform, which is
  linear in each of its three forms.
\<close>

lemma integral_on_cong:
  assumes "\<And>t. a \<le> t \<Longrightarrow> t \<le> b \<Longrightarrow> h t = h' t" and "integral_on h a b v"
  shows "integral_on h' a b v"
  using assms by (auto simp: integral_on_def)

lemma integral_on_segment:
  assumes "t0 \<noteq> t1"
  shows "integral_on (\<lambda>t. sq_norm (interpolate t0 t1 d0 d1 t)) t0 t1 (segment_integral t0 t1 d0 d1)"
proof -
  from segment_integral_exact [OF assms, of d0 d1] obtain F
    where F: "\<And>t. (F has_real_derivative sq_norm (interpolate t0 t1 d0 d1 t)) (at t)"
      and inc: "F t1 - F t0 = segment_integral t0 t1 d0 d1"
    by blast
  have "(F has_real_derivative sq_norm (interpolate t0 t1 d0 d1 t)) (at t within {t0..t1})" for t
    using F [of t] by (rule has_field_derivative_at_within)
  with inc show ?thesis by (auto simp: integral_on_def)
qed

lemma interpolate_left: "length d0 = length d1 \<Longrightarrow> interpolate t0 t1 d0 d1 t0 = d0"
  by (induction d0 d1 rule: list_induct2) (simp_all add: interpolate_def)

lemma interpolate_right:
  "length d0 = length d1 \<Longrightarrow> t0 \<noteq> t1 \<Longrightarrow> interpolate t0 t1 d0 d1 t1 = d1"
  by (induction d0 d1 rule: list_induct2) (simp_all add: interpolate_def)

lemma interpolate_sub:
  assumes "length f0 = n" "length f1 = n" "length g0 = n" "length g1 = n"
  shows "map (\<lambda>(u, v). u - v) (zip (interpolate t0 t1 f0 f1 t) (interpolate t0 t1 g0 g1 t))
       = interpolate t0 t1 (map (\<lambda>(u, v). u - v) (zip f0 g0)) (map (\<lambda>(u, v). u - v) (zip f1 g1)) t"
proof -
  define s where "s = (t - t0) / (t1 - t0)"
  show ?thesis
    unfolding interpolate_def s_def [symmetric]
    using assms by (auto simp: list_eq_iff_nth_eq algebra_simps)
qed

lemma weighted_sum_interpolate:
  fixes s :: real
  shows "length d0 = length d1 \<Longrightarrow>
   sum_list (map (\<lambda>(x, m). x * w m) (zip (map (\<lambda>(a, b). a + s * (b - a)) (zip d0 d1)) M))
     = sum_list (map (\<lambda>(x, m). x * w m) (zip d0 M))
       + s * (sum_list (map (\<lambda>(x, m). x * w m) (zip d1 M))
              - sum_list (map (\<lambda>(x, m). x * w m) (zip d0 M)))"
proof (induction d0 d1 arbitrary: M rule: list_induct2)
  case Nil
  then show ?case by simp
next
  case (Cons x xs y ys)
  show ?case
  proof (cases M)
    case Nil
    then show ?thesis by simp
  next
    case (Cons m ms)
    with Cons.IH [of ms] show ?thesis by (simp add: algebra_simps)
  qed
qed

lemma interpolate_apply:
  assumes "length d0 = length d1"
  shows "pseudometric_apply a (interpolate t0 t1 d0 d1 t)
       = interpolate t0 t1 (pseudometric_apply a d0) (pseudometric_apply a d1) t"
proof -
  have diag: "map (\<lambda>(x, y). x * y) (zip (interpolate t0 t1 d0 d1 t) v)
       = interpolate t0 t1 (map (\<lambda>(x, y). x * y) (zip d0 v)) (map (\<lambda>(x, y). x * y) (zip d1 v)) t"
    for v :: "real list"
  proof -
    define s where "s = (t - t0) / (t1 - t0)"
    show ?thesis
      unfolding interpolate_def s_def [symmetric]
      using assms by (auto simp: list_eq_iff_nth_eq algebra_simps)
  qed
  have mat: "row_times_matrix (interpolate t0 t1 d0 d1 t) M n
       = interpolate t0 t1 (row_times_matrix d0 M n) (row_times_matrix d1 M n) t" for M n
    using weighted_sum_interpolate [OF assms, of "\<lambda>m. m ! j" "(t - t0) / (t1 - t0)" M for j]
    by (auto simp: list_eq_iff_nth_eq interpolate_def row_times_matrix_def)
  show ?thesis
    by (auto simp: pseudometric_apply_def diag mat split: list.splits)
qed

text \<open>
  The sum of the closed forms over the segments is the integral over the grid of
  \<open>|A (f t - g t)|\<^sup>2\<close>, for the piecewise-linear paths \<open>f\<close> and \<open>g\<close> through the points.
\<close>

lemma strictly_increasing_tail: "strictly_increasing (t # ts) \<Longrightarrow> strictly_increasing ts"
  by (simp add: strictly_increasing_def)

lemma strictly_increasing_last: "strictly_increasing (t # ts) \<Longrightarrow> t \<le> last (t # ts)"
proof -
  assume "strictly_increasing (t # ts)"
  then have "\<forall>x\<in>set ts. t < x" by (simp add: strictly_increasing_def)
  moreover have "last (t # ts) \<in> set (t # ts)" by (rule last_in_set) simp
  ultimately show ?thesis by auto
qed

lemma grid_integral_cong:
  assumes "strictly_increasing ts"
    and "\<And>t. hd ts \<le> t \<Longrightarrow> t \<le> last ts \<Longrightarrow> h t = h' t"
    and "grid_integral h ts v"
  shows "grid_integral h' ts v"
  using assms
proof (induction ts arbitrary: v rule: induct_list012)
  case 1
  then show ?case by simp
next
  case (2 t)
  then show ?case by simp
next
  case (3 t0 t1 ts)
  from "3.prems"(3) obtain v0 v1 where v: "integral_on h t0 t1 v0"
      "grid_integral h (t1 # ts) v1" "v = v0 + v1"
    by auto
  have inc: "strictly_increasing (t1 # ts)" using "3.prems"(1) by (rule strictly_increasing_tail)
  have t01: "t0 < t1" using "3.prems"(1) by (simp add: strictly_increasing_def)
  have l1: "t1 \<le> last (t1 # ts)" using inc by (rule strictly_increasing_last)
  have "integral_on h' t0 t1 v0"
  proof (rule integral_on_cong [OF _ v(1)])
    fix t assume "t0 \<le> t" "t \<le> t1"
    with l1 show "h t = h' t" by (intro "3.prems"(2)) simp_all
  qed
  moreover have "grid_integral h' (t1 # ts) v1"
  proof (rule "3.IH"(2) [OF inc _ v(2)])
    fix t assume "hd (t1 # ts) \<le> t" "t \<le> last (t1 # ts)"
    with t01 show "h t = h' t" by (intro "3.prems"(2)) simp_all
  qed
  ultimately show ?case using v(3) by auto
qed

lemma grid_integral_sq:
  assumes "strictly_increasing ts" "length fs = length ts" "length gs = length ts"
    and "\<And>p. p \<in> set fs \<Longrightarrow> length p = c" "\<And>p. p \<in> set gs \<Longrightarrow> length p = c"
  shows "grid_integral (integrand a ts fs gs) ts
           (integral_sq ts (map (\<lambda>(x, y). pseudometric_apply a (map (\<lambda>(u, v). u - v) (zip x y)))
                                (zip fs gs)))"
  using assms
proof (induction ts arbitrary: fs gs rule: induct_list012)
  case 1
  then show ?case by simp
next
  case (2 t)
  then show ?case by simp
next
  case (3 t0 t1 ts)
  let ?A = "\<lambda>x y. pseudometric_apply a (map (\<lambda>(u, v). u - v) (zip x y))"
  from "3.prems"(2) obtain f0 f1 fs' where fs: "fs = f0 # f1 # fs'" "length fs' = length ts"
    by (cases fs; cases "tl fs") auto
  from "3.prems"(3) obtain g0 g1 gs' where gs: "gs = g0 # g1 # gs'" "length gs' = length ts"
    by (cases gs; cases "tl gs") auto
  have len: "length f0 = c" "length f1 = c" "length g0 = c" "length g1 = c"
    using "3.prems"(4,5) fs gs by simp_all
  have inc: "strictly_increasing (t1 # ts)" using "3.prems"(1) by (rule strictly_increasing_tail)
  have t01: "t0 < t1" using "3.prems"(1) by (simp add: strictly_increasing_def)
  let ?h = "integrand a (t0 # t1 # ts) fs gs"
  let ?h' = "integrand a (t1 # ts) (f1 # fs') (g1 # gs')"
  have first: "integral_on ?h t0 t1 (segment_integral t0 t1 (?A f0 g0) (?A f1 g1))"
  proof (rule integral_on_cong [OF _ integral_on_segment])
    show "t0 \<noteq> t1" using t01 by simp
  next
    fix t assume "t0 \<le> t" "t \<le> t1"
    have "?A (interpolate t0 t1 f0 f1 t) (interpolate t0 t1 g0 g1 t)
        = interpolate t0 t1 (?A f0 g0) (?A f1 g1) t"
      using len by (simp add: interpolate_sub [of _ c] interpolate_apply)
    then show "sq_norm (interpolate t0 t1 (?A f0 g0) (?A f1 g1) t) = ?h t"
      using \<open>t \<le> t1\<close> by (simp add: integrand_def fs gs)
  qed
  have ih: "grid_integral ?h' (t1 # ts)
      (integral_sq (t1 # ts) (map (\<lambda>(x, y). ?A x y) (zip (f1 # fs') (g1 # gs'))))"
    using inc fs gs "3.prems"(4,5) by (intro "3.IH"(2)) simp_all
  have rest: "grid_integral ?h (t1 # ts)
      (integral_sq (t1 # ts) (map (\<lambda>(x, y). ?A x y) (zip (f1 # fs') (g1 # gs'))))"
  proof (cases ts)
    case Nil
    then show ?thesis by simp
  next
    case (Cons t2 ts')
    from fs Cons obtain f2 fs'' where fs': "fs' = f2 # fs''" by (cases fs') auto
    from gs Cons obtain g2 gs'' where gs': "gs' = g2 # gs''" by (cases gs') auto
    have len2: "length f2 = c" "length g2 = c" using "3.prems"(4,5) fs gs fs' gs' by simp_all
    have t12: "t1 < t2" using inc Cons by (simp add: strictly_increasing_def)
    show ?thesis
    proof (rule grid_integral_cong [OF inc _ ih])
      fix t assume "hd (t1 # ts) \<le> t"
      then have "t1 \<le> t" by simp
      show "?h' t = ?h t"
      proof (cases "t = t1")
        case True
        have "interpolate t0 t1 f0 f1 t1 = f1" "interpolate t0 t1 g0 g1 t1 = g1"
          using len t01 by (simp_all add: interpolate_right)
        moreover have "interpolate t1 t2 f1 f2 t1 = f1" "interpolate t1 t2 g1 g2 t1 = g1"
          using len len2 by (simp_all add: interpolate_left)
        ultimately show ?thesis
          using True t12 by (simp add: integrand_def fs gs fs' gs' Cons)
      next
        case False
        with \<open>t1 \<le> t\<close> have "\<not> t \<le> t1" by simp
        then show ?thesis by (simp add: integrand_def fs gs)
      qed
    qed
  qed
  from first rest show ?case
    by (auto simp: fs gs)
qed

text \<open>
  The integral over an interval is unique (two antiderivatives differ by a constant), and
  so is the integral over a strictly increasing grid.
\<close>

lemma integral_on_unique:
  assumes "a \<le> b" "integral_on h a b v" "integral_on h a b w"
  shows "v = w"
proof -
  from assms(2) obtain F where F': "\<forall>t\<in>{a..b}. (F has_real_derivative h t) (at t within {a..b})"
    and Fv: "F b - F a = v" unfolding integral_on_def by blast
  from assms(3) obtain G where G': "\<forall>t\<in>{a..b}. (G has_real_derivative h t) (at t within {a..b})"
    and Gw: "G b - G a = w" unfolding integral_on_def by blast
  have F: "(F has_real_derivative h t) (at t within {a..b})" if "t \<in> {a..b}" for t
    using F' that by blast
  have G: "(G has_real_derivative h t) (at t within {a..b})" if "t \<in> {a..b}" for t
    using G' that by blast
  let ?D = "\<lambda>t. F t - G t"
  have D: "(?D has_real_derivative 0) (at t within {a..b})" if "t \<in> {a..b}" for t
    using DERIV_diff [OF F [OF that] G [OF that]] by simp
  show ?thesis
  proof (cases "a = b")
    case True
    with Fv Gw show ?thesis by simp
  next
    case False
    with assms(1) have ab: "a < b" by simp
    have cont: "continuous_on {a..b} ?D"
      by (rule DERIV_continuous_on) (rule D)
    have "?D b = ?D a"
    proof (rule DERIV_isconst_end [OF ab cont])
      fix x assume x: "a < x" "x < b"
      then have "(?D has_real_derivative 0) (at x within {a..b})" by (intro D) simp
      with x show "(?D has_real_derivative 0) (at x)" by (simp add: at_within_Icc_at)
    qed
    with Fv Gw show ?thesis by simp
  qed
qed

lemma grid_integral_unique:
  assumes "strictly_increasing ts" "grid_integral h ts v" "grid_integral h ts w"
  shows "v = w"
  using assms
proof (induction ts arbitrary: v w rule: induct_list012)
  case 1
  then show ?case by simp
next
  case (2 t)
  then show ?case by simp
next
  case (3 t0 t1 ts)
  from "3.prems"(2) obtain v0 v1 where v: "integral_on h t0 t1 v0"
      "grid_integral h (t1 # ts) v1" "v = v0 + v1" by auto
  from "3.prems"(3) obtain w0 w1 where w: "integral_on h t0 t1 w0"
      "grid_integral h (t1 # ts) w1" "w = w0 + w1" by auto
  have "t0 \<le> t1" using "3.prems"(1) by (simp add: strictly_increasing_def)
  then have "v0 = w0" using v(1) w(1) by (rule integral_on_unique)
  moreover have "v1 = w1"
    using strictly_increasing_tail [OF "3.prems"(1)] v(2) w(2) by (rule "3.IH"(2))
  ultimately show ?case using v(3) w(3) by simp
qed

lemma rows_nth_length:
  assumes "length xs = k * n" "i < k"
  shows "length (rows k n xs ! i) = n"
proof (rule rows_length_each [OF assms(1)])
  show "rows k n xs ! i \<in> set (rows k n xs)" using assms(2) by simp
qed

lemma channels_value: "shape p = b @ [l, c] \<Longrightarrow> channels p = c"
  by (simp add: channels_def)

lemma path_points_value:
  "shape p = b @ [l, c] \<Longrightarrow>
   path_points p k = rows l c (rows (prod_list b) (l * c) (data p) ! k)"
  by (simp add: path_points_def butlast_append)

lemma path_points_unbatched:
  assumes "shape p = [l, c]" "wf_tensor p"
  shows "path_points p 0 = rows l c (data p)"
proof -
  have "shape p = [] @ [l, c]" using assms(1) by simp
  from path_points_value [OF this] assms show ?thesis by (simp add: wf_tensor_def)
qed

lemma l2_discrepancy_value:
  assumes "wf_tensor tgrid" "shape tgrid = [l]" "strictly_increasing (data tgrid)"
    and "wf_tensor path1" "shape path1 = b @ [l, c]"
    and "wf_tensor path2" "shape path2 = [l, c]"
  shows "fst (l2_discrepancy tgrid path1 path2 a) =
      Inr \<lparr>shape = b,
           data = map sqrt (map (\<lambda>f. integral_sq (data tgrid)
                    (map (\<lambda>(x, y). pseudometric_apply a (map (\<lambda>(u, v). u - v) (zip x y)))
                         (zip (rows l c f) (rows l c (data path2)))))
                  (rows (prod_list b) (l * c) (data path1)))\<rparr>"
proof -
  have l: "length (data tgrid) = l" using assms(1,2) by (simp add: wf_tensor_def)
  have "shape path2 = [] @ [l, c]" using assms(7) by simp
  then have b2: "batch_dims path2 = []" and c2: "channels path2 = c"
    by (simp_all only: batch_dims_value channels_value)
  have b1: "batch_dims path1 = b" and c1: "channels path1 = c"
    using assms(5) by (simp_all only: batch_dims_value channels_value)
  show ?thesis
    by (simp add: l2_discrepancy_def b1 b2 c1 c2 l assms(3) Let_def comp_def)
qed

lemma l2_value_integral:
  assumes "wf_tensor tgrid" "shape tgrid = [l]" "strictly_increasing (data tgrid)"
    and "wf_tensor path1" "shape path1 = b @ [l, c]"
    and "wf_tensor path2" "shape path2 = [l, c]"
    and "k < prod_list b"
  shows "grid_integral (integrand a (data tgrid) (path_points path1 k) (path_points path2 0))
      (data tgrid)
      (integral_sq (data tgrid)
         (map (\<lambda>(x, y). pseudometric_apply a (map (\<lambda>(u, v). u - v) (zip x y)))
            (zip (rows l c (rows (prod_list b) (l * c) (data path1) ! k)) (rows l c (data path2)))))"
proof -
  have l: "length (data tgrid) = l" using assms(1,2) by (simp add: wf_tensor_def)
  have len1: "length (data path1) = prod_list b * (l * c)"
    using assms(4,5) by (simp add: wf_tensor_def)
  have len2: "length (data path2) = l * c"
    using assms(6,7) by (simp add: wf_tensor_def)
  have lenk: "length (rows (prod_list b) (l * c) (data path1) ! k) = l * c"
    using len1 assms(8) by (rule rows_nth_length)
  have p1: "path_points path1 k = rows l c (rows (prod_list b) (l * c) (data path1) ! k)"
    using assms(5) by (rule path_points_value)
  have p2: "path_points path2 0 = rows l c (data path2)"
    using assms(7,6) by (rule path_points_unbatched)
  show ?thesis
    unfolding p1 p2
  proof (rule grid_integral_sq [OF assms(3), where c = c])
    show "length (rows l c (rows (prod_list b) (l * c) (data path1) ! k)) = length (data tgrid)"
      by (simp add: l)
    show "length (rows l c (data path2)) = length (data tgrid)" by (simp add: l)
    show "length p = c" if "p \<in> set (rows l c (rows (prod_list b) (l * c) (data path1) ! k))" for p
      using lenk that by (rule rows_length_each)
    show "length p = c" if "p \<in> set (rows l c (data path2))" for p
      using len2 that by (rule rows_length_each)
  qed
qed

lemma t_squared_integral: "integral_on (\<lambda>t. t * t) 0 2 (8 / 3)"
proof -
  have "((\<lambda>t. t ^ 3 / 3) has_real_derivative t * t) (at t within {0..2})" for t :: real
    by (auto intro!: derivative_eq_intros simp: power2_eq_square)
  then show ?thesis
    unfolding integral_on_def by (intro exI [of _ "\<lambda>t. t ^ 3 / 3"]) simp
qed

lemma l2_concrete:
  "\<exists>m tr. L2Discrepancy_init src 1 False ''general'' = (Inr m, tr) \<and>
     fst (fst (L2Discrepancy_forward m \<lparr>shape = [3], data = [0, 1, 2]\<rparr>
            \<lparr>shape = [3, 1], data = [0, 1, 2]\<rparr> \<lparr>shape = [3, 1], data = [0, 0, 0]\<rparr>))
       = Inr \<lparr>shape = [], data = [sqrt (8 / 3)]\<rparr>"
proof -
  have "integral_sq [0, 1, 2] [[0], [1], [2]] = 8 / 3"
    by (simp add: segment_integral_def)
  then show ?thesis
    by (simp add: L2Discrepancy_init_def L2Discrepancy_forward_def CppDiscrepancy_forward_def
        l2_discrepancy_def batch_dims_def channels_def strictly_increasing_def torch_empty_def
        pseudometric_apply_def)
qed

text \<open>
  Integrals over adjacent intervals add up: the antiderivatives are glued at the common
  point. So the integral over a grid is the integral from its first time to its last.
\<close>

lemma deriv_left_part:
  fixes F H :: "real \<Rightarrow> real"
  assumes "a \<le> t" "t < b" "b \<le> c"
    and "(F has_real_derivative d) (at t within {a..b})"
    and "\<And>x. x \<le> b \<Longrightarrow> H x = F x"
  shows "(H has_real_derivative d) (at t within {a..c})"
proof -
  have "(H has_real_derivative d) (at t within {a..b})"
  proof (rule has_field_derivative_transform_within [OF assms(4), of 1])
    show "t \<in> {a..b}" using assms(1,2) by simp
    show "F x = H x" if "x \<in> {a..b}" for x using that assms(5) [of x] by simp
  qed simp
  moreover have "at t within {a..c} = at t within {a..b}"
  proof (rule at_within_nhd [of t "{..<b}"])
    show "t \<in> {..<b}" using assms(2) by simp
    show "{a..c} \<inter> {..<b} - {t} = {a..b} \<inter> {..<b} - {t}" using assms(3) by auto
  qed simp
  ultimately show ?thesis by simp
qed

lemma deriv_right_part:
  fixes G H :: "real \<Rightarrow> real"
  assumes "b < t" "t \<le> c" "a \<le> b"
    and "(G has_real_derivative d) (at t within {b..c})"
    and "\<And>x. b \<le> x \<Longrightarrow> H x = G x"
  shows "(H has_real_derivative d) (at t within {a..c})"
proof -
  have "(H has_real_derivative d) (at t within {b..c})"
  proof (rule has_field_derivative_transform_within [OF assms(4), of 1])
    show "t \<in> {b..c}" using assms(1,2) by simp
    show "G x = H x" if "x \<in> {b..c}" for x using that assms(5) [of x] by simp
  qed simp
  moreover have "at t within {a..c} = at t within {b..c}"
  proof (rule at_within_nhd [of t "{b<..}"])
    show "t \<in> {b<..}" using assms(1) by simp
    show "{a..c} \<inter> {b<..} - {t} = {b..c} \<inter> {b<..} - {t}" using assms(3) by auto
  qed simp
  ultimately show ?thesis by simp
qed

lemma deriv_joint:
  fixes F G H :: "real \<Rightarrow> real"
  assumes "a \<le> b" "b \<le> c"
    and "(F has_real_derivative d) (at b within {a..b})"
    and "(G has_real_derivative d) (at b within {b..c})"
    and "\<And>x. x \<le> b \<Longrightarrow> H x = F x" and "\<And>x. b \<le> x \<Longrightarrow> H x = G x"
  shows "(H has_real_derivative d) (at b within {a..c})"
proof -
  have l: "(H has_real_derivative d) (at b within {a..b})"
  proof (rule has_field_derivative_transform_within [OF assms(3), of 1])
    show "b \<in> {a..b}" using assms(1) by simp
    show "F x = H x" if "x \<in> {a..b}" for x using that assms(5) [of x] by simp
  qed simp
  have r: "(H has_real_derivative d) (at b within {b..c})"
  proof (rule has_field_derivative_transform_within [OF assms(4), of 1])
    show "b \<in> {b..c}" using assms(2) by simp
    show "G x = H x" if "x \<in> {b..c}" for x using that assms(6) [of x] by simp
  qed simp
  have "{a..c} = {a..b} \<union> {b..c}" using assms(1,2) by auto
  then have eq: "at b within {a..c} = sup (at b within {a..b}) (at b within {b..c})"
    by (simp add: at_within_union)
  have "((\<lambda>y. (H y - H b) / (y - b)) \<longlongrightarrow> d) (sup (at b within {a..b}) (at b within {b..c}))"
    using l r unfolding has_field_derivative_iff by (rule filterlim_sup)
  then have "((\<lambda>y. (H y - H b) / (y - b)) \<longlongrightarrow> d) (at b within {a..c})"
    by (simp only: eq)
  then show ?thesis
    by (simp only: has_field_derivative_iff)
qed

lemma integral_on_combine:
  assumes "a \<le> b" "b \<le> c" "integral_on h a b v" "integral_on h b c w"
  shows "integral_on h a c (v + w)"
proof -
  from assms(3) obtain F where F': "\<forall>t\<in>{a..b}. (F has_real_derivative h t) (at t within {a..b})"
    and Fv: "F b - F a = v" unfolding integral_on_def by blast
  from assms(4) obtain G where G': "\<forall>t\<in>{b..c}. (G has_real_derivative h t) (at t within {b..c})"
    and Gw: "G b - G c = - w" unfolding integral_on_def by force
  define G1 where "G1 t = G t - G b + F b" for t
  define H where "H t = (if t \<le> b then F t else G1 t)" for t
  have G1: "(G1 has_real_derivative h t) (at t within {b..c})" if "t \<in> {b..c}" for t
  proof -
    from G' that have "(G has_real_derivative h t) (at t within {b..c})" by blast
    then have "((\<lambda>t. G t - G b + F b) has_real_derivative h t) (at t within {b..c})"
      by (auto intro!: derivative_eq_intros)
    then show ?thesis by (simp add: G1_def [abs_def])
  qed
  have HF: "H x = F x" if "x \<le> b" for x using that by (simp add: H_def)
  have HG: "H x = G1 x" if "b \<le> x" for x using that by (auto simp: H_def G1_def)
  have "(H has_real_derivative h t) (at t within {a..c})" if t: "t \<in> {a..c}" for t
  proof -
    consider "t < b" | "t = b" | "b < t" by linarith
    then show ?thesis
    proof cases
      case 1
      with t F' have "(F has_real_derivative h t) (at t within {a..b})" by simp
      with 1 t assms(2) HF show ?thesis by (intro deriv_left_part [of a t b c F]) simp_all
    next
      case 2
      have "(F has_real_derivative h b) (at b within {a..b})" using F' assms(1) by simp
      moreover have "(G1 has_real_derivative h b) (at b within {b..c})"
        using G1 [of b] assms(2) by simp
      ultimately show ?thesis
        unfolding 2 using assms(1,2) HF HG by (intro deriv_joint [of a b c F _ G1]) simp_all
    next
      case 3
      with t have "(G1 has_real_derivative h t) (at t within {b..c})" by (intro G1) simp
      with 3 t assms(1) HG show ?thesis by (intro deriv_right_part [of b t c a G1]) simp_all
    qed
  qed
  moreover have "H c - H a = v + w"
    using Fv Gw assms(1,2) by (auto simp: H_def G1_def)
  ultimately show ?thesis unfolding integral_on_def by blast
qed

lemma integral_on_point: "integral_on h a a 0"
proof -
  have "((\<lambda>x. h a * x) has_real_derivative h a) (at a within {a..a})"
    by (auto intro!: derivative_eq_intros)
  then show ?thesis unfolding integral_on_def by (intro exI [of _ "\<lambda>x. h a * x"]) simp
qed

lemma grid_integral_whole:
  assumes "strictly_increasing ts" "ts \<noteq> []" "grid_integral h ts v"
  shows "integral_on h (hd ts) (last ts) v"
  using assms
proof (induction ts arbitrary: v rule: induct_list012)
  case 1
  then show ?case by simp
next
  case (2 t)
  then show ?case by (simp add: integral_on_point)
next
  case (3 t0 t1 ts)
  from "3.prems"(3) obtain v0 v1 where v: "integral_on h t0 t1 v0"
      "grid_integral h (t1 # ts) v1" "v = v0 + v1" by auto
  have inc: "strictly_increasing (t1 # ts)" using "3.prems"(1) by (rule strictly_increasing_tail)
  have t01: "t0 \<le> t1" using "3.prems"(1) by (simp add: strictly_increasing_def)
  have l1: "t1 \<le> last (t1 # ts)" using inc by (rule strictly_increasing_last)
  have "integral_on h (hd (t1 # ts)) (last (t1 # ts)) v1"
    using inc _ v(2) by (rule "3.IH"(2)) simp
  then have "integral_on h t1 (last (t1 # ts)) v1" by simp
  with t01 l1 v(1) have "integral_on h t0 (last (t1 # ts)) (v0 + v1)"
    by (rule integral_on_combine)
  then show ?case by (simp add: v(3))
qed

text \<open>
  C3. For times \<open>[0, 1, 2]\<close>, \<open>path1 = [[0], [1], [2]]\<close>, \<open>path2 = [[0], [0], [0]]\<close> and a
  module constructed without pseudometric, \<^verbatim>\<open>forward\<close> returns the scalar \<open>sqrt (8 / 3)\<close>,
  and \<open>8 / 3\<close> is the integral of \<open>t\<^sup>2\<close> from 0 to 2. In general, for a strictly
  increasing time grid of length \<open>L\<close>, a batch \<open>path1\<close> of shape \<open>(B..., L, C)\<close> and a
  \<open>path2\<close> of shape \<open>(L, C)\<close>, \<^verbatim>\<open>forward\<close> returns a tensor of shape \<open>B\<close> whose \<open>k\<close>-th
  entry is the square root of the integral of \<open>|A (f\<^sub>k t - g t)|\<^sup>2\<close>: \<open>f\<^sub>k\<close> and \<open>g\<close> are
  the piecewise-linear paths through the points of the \<open>k\<close>-th path of \<open>path1\<close> and of
  \<open>path2\<close>, and \<open>A\<close> is the module's \<open>arg\<close>. The value under the root is the sum of the
  integrals over the segments of the grid, and no other value is; it is the integral from
  the first time to the last, and no other value is.
\<close>

theorem l2_discrepancy_integral:
  "(\<exists>m tr. L2Discrepancy_init src 1 False ''general'' = (Inr m, tr) \<and>
      fst (fst (L2Discrepancy_forward m \<lparr>shape = [3], data = [0, 1, 2]\<rparr>
             \<lparr>shape = [3, 1], data = [0, 1, 2]\<rparr> \<lparr>shape = [3, 1], data = [0, 0, 0]\<rparr>))
        = Inr \<lparr>shape = [], data = [sqrt (8 / 3)]\<rparr>) \<and>
   integral_on (\<lambda>t. t * t) 0 2 (8 / 3) \<and>
   (\<forall>self tgrid path1 path2 b l c.
      wf_tensor tgrid \<and> shape tgrid = [l] \<and> strictly_increasing (data tgrid) \<and>
      wf_tensor path1 \<and> shape path1 = b @ [l, c] \<and>
      wf_tensor path2 \<and> shape path2 = [l, c] \<longrightarrow>
      (\<exists>vals. fst (fst (L2Discrepancy_forward self tgrid path1 path2))
                 = Inr \<lparr>shape = b, data = map sqrt vals\<rparr> \<and>
              length vals = prod_list b \<and>
              (\<forall>k<prod_list b. \<forall>w.
                 (grid_integral (integrand (arg self) (data tgrid)
                                   (path_points path1 k) (path_points path2 0))
                    (data tgrid) w
                  \<longleftrightarrow> w = vals ! k) \<and>
                 (0 < l \<longrightarrow>
                    (integral_on (integrand (arg self) (data tgrid)
                                    (path_points path1 k) (path_points path2 0))
                       (hd (data tgrid)) (last (data tgrid)) w
                     \<longleftrightarrow> w = vals ! k)))))"
proof (intro conjI allI impI)
  show "\<exists>m tr. L2Discrepancy_init src 1 False ''general'' = (Inr m, tr) \<and>
      fst (fst (L2Discrepancy_forward m \<lparr>shape = [3], data = [0, 1, 2]\<rparr>
             \<lparr>shape = [3, 1], data = [0, 1, 2]\<rparr> \<lparr>shape = [3, 1], data = [0, 0, 0]\<rparr>))
        = Inr \<lparr>shape = [], data = [sqrt (8 / 3)]\<rparr>"
    by (rule l2_concrete)
  show "integral_on (\<lambda>t. t * t) 0 2 (8 / 3)" by (rule t_squared_integral)
next
  fix self :: L2Discrepancy and tgrid path1 path2 b l c
  assume "wf_tensor tgrid \<and> shape tgrid = [l] \<and> strictly_increasing (data tgrid) \<and>
      wf_tensor path1 \<and> shape path1 = b @ [l, c] \<and>
      wf_tensor path2 \<and> shape path2 = [l, c]"
  then have h: "wf_tensor tgrid" "shape tgrid = [l]" "strictly_increasing (data tgrid)"
      "wf_tensor path1" "shape path1 = b @ [l, c]" "wf_tensor path2" "shape path2 = [l, c]"
    by simp_all
  let ?v = "\<lambda>f. integral_sq (data tgrid)
                    (map (\<lambda>(x, y). pseudometric_apply (arg self) (map (\<lambda>(u, v). u - v) (zip x y)))
                         (zip (rows l c f) (rows l c (data path2))))"
  let ?vals = "map ?v (rows (prod_list b) (l * c) (data path1))"
  have "fst (fst (L2Discrepancy_forward self tgrid path1 path2))
      = Inr \<lparr>shape = b, data = map sqrt ?vals\<rparr>"
    using l2_discrepancy_value [OF h, of "arg self"]
    by (simp add: L2Discrepancy_forward_def CppDiscrepancy_forward_def)
  moreover have "length ?vals = prod_list b" by simp
  moreover have "(grid_integral (integrand (arg self) (data tgrid)
                                   (path_points path1 k) (path_points path2 0))
                    (data tgrid) w
                  \<longleftrightarrow> w = ?vals ! k) \<and>
                 (0 < l \<longrightarrow>
                    (integral_on (integrand (arg self) (data tgrid)
                                    (path_points path1 k) (path_points path2 0))
                       (hd (data tgrid)) (last (data tgrid)) w
                     \<longleftrightarrow> w = ?vals ! k))" if k: "k < prod_list b" for k w
  proof (intro conjI impI)
    let ?h = "integrand (arg self) (data tgrid) (path_points path1 k) (path_points path2 0)"
    have gi: "grid_integral ?h (data tgrid) (?vals ! k)"
      using l2_value_integral [OF h k, of "arg self"] k by simp
    show "grid_integral ?h (data tgrid) w \<longleftrightarrow> w = ?vals ! k"
    proof
      assume "grid_integral ?h (data tgrid) w"
      with h(3) show "w = ?vals ! k" using gi by (rule grid_integral_unique)
    next
      assume "w = ?vals ! k"
      with gi show "grid_integral ?h (data tgrid) w" by simp
    qed
    assume "0 < l"
    with h(1,2) have ne: "data tgrid \<noteq> []" by (auto simp: wf_tensor_def)
    have io: "integral_on ?h (hd (data tgrid)) (last (data tgrid)) (?vals ! k)"
      using h(3) ne gi by (rule grid_integral_whole)
    have le: "hd (data tgrid) \<le> last (data tgrid)"
      using h(3) ne strictly_increasing_last [of "hd (data tgrid)" "tl (data tgrid)"] by simp
    show "integral_on ?h (hd (data tgrid)) (last (data tgrid)) w \<longleftrightarrow> w = ?vals ! k"
    proof
      assume "integral_on ?h (hd (data tgrid)) (last (data tgrid)) w"
      with le show "w = ?vals ! k" using io by (rule integral_on_unique)
    next
      assume "w = ?vals ! k"
      with io show "integral_on ?h (hd (data tgrid)) (last (data tgrid)) w" by simp
    qed
  qed
  ultimately show "\<exists>vals. fst (fst (L2Discrepancy_forward self tgrid path1 path2))
                 = Inr \<lparr>shape = b, data = map sqrt vals\<rparr> \<and>
              length vals = prod_list b \<and>
              (\<forall>k<prod_list b. \<forall>w.
                 (grid_integral (integrand (arg self) (data tgrid)
                                   (path_points path1 k) (path_points path2 0))
                    (data tgrid) w
                  \<longleftrightarrow> w = vals ! k) \<and>
                 (0 < l \<longrightarrow>
                    (integral_on (integrand (arg self) (data tgrid)
                                    (path_points path1 k) (path_points path2 0))
                       (hd (data tgrid)) (last (data tgrid)) w
                     \<longleftrightarrow> w = vals ! k)))"
    by (intro exI [of _ ?vals]) blast
qed

theorem l2_discrepancy_integral_witness:
  "fst (fst (L2Discrepancy_forward
       \<lparr>in_channels = 1, pseudometric = True, metric_type = ''diagonal'',
          arg = \<lparr>shape = [1], data = [2]\<rparr>\<rparr>
       \<lparr>shape = [3], data = [0, 1, 3]\<rparr> \<lparr>shape = [2, 3, 1], data = [1, 3, 3, 0, 0, 0]\<rparr>
       \<lparr>shape = [3, 1], data = [1, 1, 1]\<rparr>))
     = Inr \<lparr>shape = [2], data = [sqrt (112 / 3), sqrt 12]\<rparr> \<and>
   integral_on (integrand \<lparr>shape = [1], data = [2]\<rparr> [0, 1, 3] [[1], [3], [3]] [[1], [1], [1]])
     0 3 (112 / 3) \<and>
   integral_on (integrand \<lparr>shape = [1], data = [2]\<rparr> [0, 1, 3] [[0], [0], [0]] [[1], [1], [1]])
     0 3 12"
proof -
  let ?m = "\<lparr>in_channels = 1, pseudometric = True, metric_type = ''diagonal'',
          arg = \<lparr>shape = [1], data = [2]\<rparr>\<rparr>"
  let ?T = "\<lparr>shape = [3], data = [0, 1, 3]\<rparr>"
  let ?P1 = "\<lparr>shape = [2, 3, 1], data = [1, 3, 3, 0, 0, 0]\<rparr>"
  let ?P2 = "\<lparr>shape = [3, 1], data = [1, 1, 1]\<rparr>"
  have hyp: "wf_tensor ?T \<and> shape ?T = [3] \<and> strictly_increasing (data ?T) \<and>
      wf_tensor ?P1 \<and> shape ?P1 = [2] @ [3, 1] \<and> wf_tensor ?P2 \<and> shape ?P2 = [3, 1]"
    by (simp add: wf_tensor_def strictly_increasing_def)
  from l2_discrepancy_integral [THEN conjunct2, THEN conjunct2, rule_format, OF hyp, of ?m]
  obtain vals where v: "fst (fst (L2Discrepancy_forward ?m ?T ?P1 ?P2))
                 = Inr \<lparr>shape = [2], data = map sqrt vals\<rparr>"
      "\<And>k w. k < prod_list [2] \<Longrightarrow> 0 < (3 :: nat) \<longrightarrow>
         (integral_on (integrand (arg ?m) (data ?T) (path_points ?P1 k) (path_points ?P2 0))
           (hd (data ?T)) (last (data ?T)) w \<longleftrightarrow> w = vals ! k)"
    by blast
  have val: "fst (fst (L2Discrepancy_forward ?m ?T ?P1 ?P2))
      = Inr \<lparr>shape = [2], data = [sqrt (112 / 3), sqrt 12]\<rparr>"
    by (simp add: L2Discrepancy_forward_def CppDiscrepancy_forward_def l2_discrepancy_def
        batch_dims_def channels_def strictly_increasing_def pseudometric_apply_def
        segment_integral_def numeral_2_eq_2 numeral_3_eq_3)
  from v(1) val have "map sqrt vals = [sqrt (112 / 3), sqrt 12]" by simp
  then have vals: "vals = [112 / 3, 12]" by (auto simp: map_eq_Cons_conv)
  have pp: "path_points ?P1 0 = [[1], [3], [3]]" "path_points ?P1 1 = [[0], [0], [0]]"
      "path_points ?P2 0 = [[1], [1], [1]]"
    by (simp_all add: path_points_def batch_dims_def numeral_2_eq_2 numeral_3_eq_3)
  have "integral_on (integrand (arg ?m) (data ?T) (path_points ?P1 0) (path_points ?P2 0))
      (hd (data ?T)) (last (data ?T)) (vals ! 0)"
    using v(2) [of 0 "vals ! 0"] by simp
  then have g0: "integral_on (integrand \<lparr>shape = [1], data = [2]\<rparr> [0, 1, 3]
      [[1], [3], [3]] [[1], [1], [1]]) 0 3 (112 / 3)"
    unfolding pp by (simp add: vals)
  have "integral_on (integrand (arg ?m) (data ?T) (path_points ?P1 1) (path_points ?P2 0))
      (hd (data ?T)) (last (data ?T)) (vals ! 1)"
    using v(2) [of 1 "vals ! 1"] by simp
  then have g1: "integral_on (integrand \<lparr>shape = [1], data = [2]\<rparr> [0, 1, 3]
      [[0], [0], [0]] [[1], [1], [1]]) 0 3 12"
    unfolding pp by (simp add: vals)
  from val g0 g1 show ?thesis by blast
qed

text \<open>
  C4. For a time grid of length \<open>L\<close> and paths of shapes \<open>(B1..., L, C1)\<close> and
  \<open>(B2..., L, C2)\<close>, \<^verbatim>\<open>forward\<close> fails with ShapeError exactly when \<open>path2\<close> has a batch
  dimension, or the times are not strictly increasing, or the channel counts differ. When
  it fails it has done no tensor work (its work trace is empty) and the module is as it
  was; otherwise it raises no error and returns a tensor of the batch shape of \<open>path1\<close>,
  after the work on the differences and on the result.
\<close>

theorem l2_shape_errors:
  assumes "shape tgrid = [l]" "length (data tgrid) = l"
    and "shape path1 = b1 @ [l, c1]" and "shape path2 = b2 @ [l, c2]"
  shows "(fst (fst (L2Discrepancy_forward self tgrid path1 path2)) = Inl ShapeError \<longleftrightarrow>
            b2 \<noteq> [] \<or> \<not> strictly_increasing (data tgrid) \<or> c1 \<noteq> c2) \<and>
         (b2 \<noteq> [] \<or> \<not> strictly_increasing (data tgrid) \<or> c1 \<noteq> c2 \<longrightarrow>
            L2Discrepancy_forward self tgrid path1 path2 = ((Inl ShapeError, []), self)) \<and>
         (b2 = [] \<and> strictly_increasing (data tgrid) \<and> c1 = c2 \<longrightarrow>
            (\<exists>t. L2Discrepancy_forward self tgrid path1 path2
                    = ((Inr t, [b1 @ [l, c1], b1]), self) \<and> shape t = b1))"
proof -
  have b: "batch_dims path1 = b1" "batch_dims path2 = b2"
    using assms(3,4) by (simp_all only: batch_dims_value)
  have c: "channels path1 = c1" "channels path2 = c2"
    using assms(3,4) by (simp_all only: channels_value)
  show ?thesis
    by (auto simp: L2Discrepancy_forward_def CppDiscrepancy_forward_def l2_discrepancy_def
        b c assms(2) Let_def)
qed

theorem l2_shape_errors_witness:
  "L2Discrepancy_forward
          \<lparr>in_channels = 1, pseudometric = False, metric_type = ''general'',
             arg = \<lparr>shape = [], data = [0]\<rparr>\<rparr>
          \<lparr>shape = [2], data = [0, 1]\<rparr> \<lparr>shape = [2, 1], data = [0, 1]\<rparr>
          \<lparr>shape = [1, 2, 1], data = [0, 0]\<rparr>
     = ((Inl ShapeError, []),
        \<lparr>in_channels = 1, pseudometric = False, metric_type = ''general'',
           arg = \<lparr>shape = [], data = [0]\<rparr>\<rparr>) \<and>
   L2Discrepancy_forward
          \<lparr>in_channels = 1, pseudometric = False, metric_type = ''general'',
             arg = \<lparr>shape = [], data = [0]\<rparr>\<rparr>
          \<lparr>shape = [2], data = [1, 0]\<rparr> \<lparr>shape = [2, 1], data = [0, 1]\<rparr>
          \<lparr>shape = [2, 1], data = [0, 0]\<rparr>
     = ((Inl ShapeError, []),
        \<lparr>in_channels = 1, pseudometric = False, metric_type = ''general'',
           arg = \<lparr>shape = [], data = [0]\<rparr>\<rparr>) \<and>
   L2Discrepancy_forward
          \<lparr>in_channels = 1, pseudometric = False, metric_type = ''general'',
             arg = \<lparr>shape = [], data = [0]\<rparr>\<rparr>
          \<lparr>shape = [2], data = [0, 1]\<rparr> \<lparr>shape = [2, 2], data = [0, 1, 0, 1]\<rparr>
          \<lparr>shape = [2, 1], data = [0, 0]\<rparr>
     = ((Inl ShapeError, []),
        \<lparr>in_channels = 1, pseudometric = False, metric_type = ''general'',
           arg = \<lparr>shape = [], data = [0]\<rparr>\<rparr>) \<and>
   (\<exists>t. L2Discrepancy_forward
          \<lparr>in_channels = 1, pseudometric = False, metric_type = ''general'',
             arg = \<lparr>shape = [], data = [0]\<rparr>\<rparr>
          \<lparr>shape = [2], data = [0, 1]\<rparr> \<lparr>shape = [2, 1], data = [0, 1]\<rparr>
          \<lparr>shape = [2, 1], data = [0, 0]\<rparr>
     = ((Inr t, [[2, 1], []]),
        \<lparr>in_channels = 1, pseudometric = False, metric_type = ''general'',
           arg = \<lparr>shape = [], data = [0]\<rparr>\<rparr>) \<and> shape t = [])"
proof -
  let ?m = "\<lparr>in_channels = 1, pseudometric = False, metric_type = ''general'',
             arg = \<lparr>shape = [], data = [0]\<rparr>\<rparr>"
  have inc: "strictly_increasing [0, 1]" "\<not> strictly_increasing [1, 0]"
    by (simp_all add: strictly_increasing_def)
  have a: "L2Discrepancy_forward ?m \<lparr>shape = [2], data = [0, 1]\<rparr>
      \<lparr>shape = [2, 1], data = [0, 1]\<rparr> \<lparr>shape = [1, 2, 1], data = [0, 0]\<rparr>
      = ((Inl ShapeError, []), ?m)"
    using l2_shape_errors [where tgrid = "\<lparr>shape = [2], data = [0, 1]\<rparr>" and l = 2
        and ?path1.0 = "\<lparr>shape = [2, 1], data = [0, 1]\<rparr>" and ?b1.0 = "[]" and ?c1.0 = 1
        and ?path2.0 = "\<lparr>shape = [1, 2, 1], data = [0, 0]\<rparr>" and ?b2.0 = "[1]" and ?c2.0 = 1
        and self = ?m]
    by simp
  have b: "L2Discrepancy_forward ?m \<lparr>shape = [2], data = [1, 0]\<rparr>
      \<lparr>shape = [2, 1], data = [0, 1]\<rparr> \<lparr>shape = [2, 1], data = [0, 0]\<rparr>
      = ((Inl ShapeError, []), ?m)"
    using l2_shape_errors [where tgrid = "\<lparr>shape = [2], data = [1, 0]\<rparr>" and l = 2
        and ?path1.0 = "\<lparr>shape = [2, 1], data = [0, 1]\<rparr>" and ?b1.0 = "[]" and ?c1.0 = 1
        and ?path2.0 = "\<lparr>shape = [2, 1], data = [0, 0]\<rparr>" and ?b2.0 = "[]" and ?c2.0 = 1
        and self = ?m] inc
    by simp
  have c: "L2Discrepancy_forward ?m \<lparr>shape = [2], data = [0, 1]\<rparr>
      \<lparr>shape = [2, 2], data = [0, 1, 0, 1]\<rparr> \<lparr>shape = [2, 1], data = [0, 0]\<rparr>
      = ((Inl ShapeError, []), ?m)"
    using l2_shape_errors [where tgrid = "\<lparr>shape = [2], data = [0, 1]\<rparr>" and l = 2
        and ?path1.0 = "\<lparr>shape = [2, 2], data = [0, 1, 0, 1]\<rparr>" and ?b1.0 = "[]" and ?c1.0 = 2
        and ?path2.0 = "\<lparr>shape = [2, 1], data = [0, 0]\<rparr>" and ?b2.0 = "[]" and ?c2.0 = 1
        and self = ?m]
    by simp
  have d: "\<exists>t. L2Discrepancy_forward ?m \<lparr>shape = [2], data = [0, 1]\<rparr>
      \<lparr>shape = [2, 1], data = [0, 1]\<rparr> \<lparr>shape = [2, 1], data = [0, 0]\<rparr>
      = ((Inr t, [[2, 1], []]), ?m) \<and> shape t = []"
    using l2_shape_errors [where tgrid = "\<lparr>shape = [2], data = [0, 1]\<rparr>" and l = 2
        and ?path1.0 = "\<lparr>shape = [2, 1], data = [0, 1]\<rparr>" and ?b1.0 = "[]" and ?c1.0 = 1
        and ?path2.0 = "\<lparr>shape = [2, 1], data = [0, 0]\<rparr>" and ?b2.0 = "[]" and ?c2.0 = 1
        and self = ?m] inc
    by simp
  from a b c d show ?thesis by blast
qed

section \<open>forward leaves the objects of its caller unchanged\<close>

lemma keeps_ret [simp]: "keeps n (ret x)"
  by (simp add: keeps_def ret_def)

lemma allocs_new_tensor [simp]: "allocs n (new_tensor r)"
  by (auto simp: allocs_def keeps_def new_tensor_def split: sum.splits)

lemma allocs_new_tensor_read: "allocs n (\<lambda>s. new_tensor (g s) s)"
  by (auto simp: allocs_def keeps_def new_tensor_def split: sum.splits)

lemma allocs_op1 [simp]: "allocs n (op1 f r)"
  unfolding op1_def by (rule allocs_new_tensor_read)

lemma allocs_op2 [simp]: "allocs n (op2 f r1 r2)"
  unfolding op2_def by (rule allocs_new_tensor_read)

lemma allocs_keeps: "allocs n m \<Longrightarrow> keeps n m"
  by (simp add: allocs_def)

lemma keeps_op1 [simp]: "keeps n (op1 f r)"
  by (rule allocs_keeps) simp

lemma keeps_op2 [simp]: "keeps n (op2 f r1 r2)"
  by (rule allocs_keeps) simp

lemma keeps_bind: "keeps n m \<Longrightarrow> (\<And>x. keeps n (f x)) \<Longrightarrow> keeps n (bind_st m f)"
  unfolding keeps_def bind_st_def
  by (auto split: prod.splits sum.splits)

lemma keeps_bind_fresh:
  "allocs n m \<Longrightarrow> (\<And>x. n \<le> x \<Longrightarrow> keeps n (f x)) \<Longrightarrow> keeps n (bind_st m f)"
  unfolding allocs_def keeps_def bind_st_def
  by (auto split: prod.splits sum.splits)

lemma keeps_unsqueeze_inplace: "n \<le> r \<Longrightarrow> keeps n (unsqueeze_inplace d r)"
  by (auto simp: keeps_def unsqueeze_inplace_def split: sum.splits)

lemma keeps_expand_time_channel_st: "keeps n (expand_time_channel_st dims tc)"
proof (induction dims arbitrary: tc)
  case Nil
  have "expand_time_channel_st [] tc = ret tc" by (rule ext) simp
  then show ?case by simp
next
  case (Cons k dims)
  have "expand_time_channel_st (k # dims) tc =
      bind_st (op1 (unsqueeze 0) tc) (\<lambda>u.
      bind_st (\<lambda>s'. op1 (expand (k # shape (s' ! tc))) u s') (\<lambda>tc' s'.
        expand_time_channel_st dims tc' s'))"
    by (rule ext) simp
  moreover have "keeps n (\<lambda>s'. op1 (expand (k # shape (s' ! tc))) u s')" for u
    unfolding op1_def by (rule allocs_keeps [OF allocs_new_tensor_read])
  ultimately show ?case
    using Cons.IH by (auto intro!: keeps_bind)
qed

lemma keeps_unsqueeze_loop_st: "n \<le> r \<Longrightarrow> keeps n (unsqueeze_loop_st d dims r)"
proof (induction dims)
  case Nil
  have "unsqueeze_loop_st d [] r = ret ()" by (rule ext) simp
  then show ?case by simp
next
  case (Cons k dims)
  have "unsqueeze_loop_st d (k # dims) r =
      bind_st (unsqueeze_inplace d r) (\<lambda>_ s'. unsqueeze_loop_st d dims r s')"
    by (rule ext) simp
  with Cons show ?case
    by (auto intro!: keeps_bind keeps_unsqueeze_inplace)
qed

lemma keeps_augment_time_st: "keeps n (augment_time_st tgrid path1 path2)"
proof -
  have "keeps n (\<lambda>s. expand_time_channel_st (batch_dims (s ! p)) tc s)" for p tc
    using keeps_expand_time_channel_st [of n _ tc] by (simp add: keeps_def)
  then show ?thesis
    unfolding augment_time_st_def
    by (intro keeps_bind keeps_op1 keeps_op2 keeps_ret)
qed

lemma keeps_apply_pseudometric_st: "keeps n (apply_pseudometric_st self lin r)"
proof -
  have "keeps n (\<lambda>s. new_tensor (g s) s)" for g
    by (rule allocs_keeps [OF allocs_new_tensor_read])
  from this [of "\<lambda>s. matmul (s ! r) (map_option (\<lambda>r. s ! r) lin)"]
    this [of "\<lambda>s. mul (s ! r) (map_option (\<lambda>r. s ! r) lin)"]
  show ?thesis
    by (simp add: keeps_def apply_pseudometric_st_def ret_def)
qed

lemma keeps_forward_st: "keeps n (forward_st self lin tgrid path1 path2)"
proof -
  have tail: "keeps n
     (bind_st (op1 flatten_batch p1) (\<lambda>path1.
      bind_st (op1 flatten_batch p2) (\<lambda>path2.
      bind_st (op1 (logsignature self) path1) (\<lambda>logsignature1.
      bind_st (op1 (logsignature self) path2) (\<lambda>logsignature2.
      bind_st (op1 (view_batch b1) logsignature1) (\<lambda>logsignature1.
      bind_st (op1 (view_batch b2) logsignature2) (\<lambda>logsignature2.
      bind_st (unsqueeze_loop_st 0 b1 logsignature2) (\<lambda>_.
      bind_st (unsqueeze_loop_st (- 2) b2 logsignature1) (\<lambda>_.
      bind_st (op2 (expand_pair b1 b2) logsignature1 logsignature1) (\<lambda>logsignature1.
      bind_st (op2 (expand_pair b1 b2) logsignature1 logsignature2) (\<lambda>logsignature2.
      bind_st (op2 tensor_sub logsignature1 logsignature2) (\<lambda>logsignature_diff.
      bind_st (apply_pseudometric_st self lin logsignature_diff) (\<lambda>logsignature_diff.
      op1 (norm_last (p_exp self)) logsignature_diff)))))))))))))" for b1 b2 p1 p2
    by (intro keeps_bind_fresh [OF allocs_op1] keeps_bind keeps_unsqueeze_loop_st
        keeps_op1 keeps_op2 keeps_apply_pseudometric_st)
  have body: "keeps n
     (bind_st (if include_time self then augment_time_st tgrid path1 path2
               else ret (path1, path2)) (\<lambda>(path1, path2).
      bind_st (op1 flatten_batch path1) (\<lambda>path1.
      bind_st (op1 flatten_batch path2) (\<lambda>path2.
      bind_st (op1 (logsignature self) path1) (\<lambda>logsignature1.
      bind_st (op1 (logsignature self) path2) (\<lambda>logsignature2.
      bind_st (op1 (view_batch b1) logsignature1) (\<lambda>logsignature1.
      bind_st (op1 (view_batch b2) logsignature2) (\<lambda>logsignature2.
      bind_st (unsqueeze_loop_st 0 b1 logsignature2) (\<lambda>_.
      bind_st (unsqueeze_loop_st (- 2) b2 logsignature1) (\<lambda>_.
      bind_st (op2 (expand_pair b1 b2) logsignature1 logsignature1) (\<lambda>logsignature1.
      bind_st (op2 (expand_pair b1 b2) logsignature1 logsignature2) (\<lambda>logsignature2.
      bind_st (op2 tensor_sub logsignature1 logsignature2) (\<lambda>logsignature_diff.
      bind_st (apply_pseudometric_st self lin logsignature_diff) (\<lambda>logsignature_diff.
      op1 (norm_last (p_exp self)) logsignature_diff))))))))))))))" for b1 b2
  proof (rule keeps_bind)
    show "keeps n (if include_time self then augment_time_st tgrid path1 path2
                   else ret (path1, path2))"
      by (simp add: keeps_augment_time_st)
  next
    fix x :: "nat \<times> nat"
    obtain p1 p2 where x: "x = (p1, p2)" by (cases x)
    show "keeps n (case x of (path1, path2) \<Rightarrow>
      bind_st (op1 flatten_batch path1) (\<lambda>path1.
      bind_st (op1 flatten_batch path2) (\<lambda>path2.
      bind_st (op1 (logsignature self) path1) (\<lambda>logsignature1.
      bind_st (op1 (logsignature self) path2) (\<lambda>logsignature2.
      bind_st (op1 (view_batch b1) logsignature1) (\<lambda>logsignature1.
      bind_st (op1 (view_batch b2) logsignature2) (\<lambda>logsignature2.
      bind_st (unsqueeze_loop_st 0 b1 logsignature2) (\<lambda>_.
      bind_st (unsqueeze_loop_st (- 2) b2 logsignature1) (\<lambda>_.
      bind_st (op2 (expand_pair b1 b2) logsignature1 logsignature1) (\<lambda>logsignature1.
      bind_st (op2 (expand_pair b1 b2) logsignature1 logsignature2) (\<lambda>logsignature2.
      bind_st (op2 tensor_sub logsignature1 logsignature2) (\<lambda>logsignature_diff.
      bind_st (apply_pseudometric_st self lin logsignature_diff) (\<lambda>logsignature_diff.
      op1 (norm_last (p_exp self)) logsignature_diff)))))))))))))"
      unfolding x prod.case by (rule tail)
  qed
  show ?thesis
    unfolding keeps_def
  proof (intro allI impI)
    fix s :: store
    assume "n \<le> length s"
    with body [of "batch_dims (s ! path1)" "batch_dims (s ! path2)"]
    show "n \<le> length (snd (forward_st self lin tgrid path1 path2 s)) \<and>
          take n (snd (forward_st self lin tgrid path1 path2 s)) = take n s"
      by (simp add: keeps_def forward_st_def Let_def)
  qed
qed

text \<open>
  C10. \<^verbatim>\<open>forward\<close> changes no object that exists when it is called: the time grid, the
  two paths, the parameter and every other tensor of the caller have the same shape
  and elements afterwards, whether the call returns or raises. The objects that
  \<^verbatim>\<open>unsqueeze_\<close> replaces are the two views made inside the call.
\<close>

theorem forward_keeps_store:
  "take (length s) (snd (forward_st self lin tgrid path1 path2 s)) = s"
  using keeps_forward_st [of "length s" self lin tgrid path1 path2]
  by (simp add: keeps_def)

text \<open>
  On a store of three objects the call allocates fifteen more, returns the last one,
  and the second view (object 13) has received its dimension of size one in place.
\<close>

lemma forward_st_example:
  "fst (forward_st \<lparr>in_channels = 1, pseudometric = False, metric_type = ''general'', depth = 1,
             p_exp = PosInf, include_time = True, linear = None,
             logsignature = Logsignature_call increment_signatory 1\<rparr> None 0 1 2
     [\<lparr>shape = [2], data = [0, 1]\<rparr>,
      \<lparr>shape = [2, 2, 1], data = [0, 1, 0, 3]\<rparr>,
      \<lparr>shape = [2, 1], data = [0, 5]\<rparr>]) = Inr 17 \<and>
   snd (forward_st \<lparr>in_channels = 1, pseudometric = False, metric_type = ''general'', depth = 1,
             p_exp = PosInf, include_time = True, linear = None,
             logsignature = Logsignature_call increment_signatory 1\<rparr> None 0 1 2
     [\<lparr>shape = [2], data = [0, 1]\<rparr>,
      \<lparr>shape = [2, 2, 1], data = [0, 1, 0, 3]\<rparr>,
      \<lparr>shape = [2, 1], data = [0, 5]\<rparr>]) ! 17 = \<lparr>shape = [2], data = [4, 2]\<rparr> \<and>
   snd (forward_st \<lparr>in_channels = 1, pseudometric = False, metric_type = ''general'', depth = 1,
             p_exp = PosInf, include_time = True, linear = None,
             logsignature = Logsignature_call increment_signatory 1\<rparr> None 0 1 2
     [\<lparr>shape = [2], data = [0, 1]\<rparr>,
      \<lparr>shape = [2, 2, 1], data = [0, 1, 0, 3]\<rparr>,
      \<lparr>shape = [2, 1], data = [0, 5]\<rparr>]) ! 13 = \<lparr>shape = [1, 2], data = [1, 5]\<rparr>"
  by code_simp

theorem forward_keeps_store_witness:
  "take 3 (snd (forward_st \<lparr>in_channels = 1, pseudometric = False, metric_type = ''general'',
             depth = 1, p_exp = PosInf, include_time = True, linear = None,
             logsignature = Logsignature_call increment_signatory 1\<rparr> None 0 1 2
     [\<lparr>shape = [2], data = [0, 1]\<rparr>,
      \<lparr>shape = [2, 2, 1], data = [0, 1, 0, 3]\<rparr>,
      \<lparr>shape = [2, 1], data = [0, 5]\<rparr>]))
   = [\<lparr>shape = [2], data = [0, 1]\<rparr>,
      \<lparr>shape = [2, 2, 1], data = [0, 1, 0, 3]\<rparr>,
      \<lparr>shape = [2, 1], data = [0, 5]\<rparr>]"
  using forward_keeps_store [of
      "[\<lparr>shape = [2], data = [0, 1]\<rparr>,
        \<lparr>shape = [2, 2, 1], data = [0, 1, 0, 3]\<rparr>,
        \<lparr>shape = [2, 1], data = [0, 5]\<rparr>]"
      "\<lparr>in_channels = 1, pseudometric = False, metric_type = ''general'',
             depth = 1, p_exp = PosInf, include_time = True, linear = None,
             logsignature = Logsignature_call increment_signatory 1\<rparr>" None 0 1 2]
  by (simp add: numeral_3_eq_3)

section \<open>forward on the store computes what forward computes on values\<close>

lemma tracks_agrees: "tracks rd_ref m s v \<Longrightarrow> agrees m s v"
  by (simp add: tracks_def agrees_def)

lemma tracks_new: "tracks rd_ref (\<lambda>s. new_tensor (g s) s) s (g s)"
  by (cases "g s") (simp_all add: tracks_def new_tensor_def rd_ref_def)

lemma tracks_op1: "tracks rd_ref (op1 f r) s (f (s ! r))"
  unfolding op1_def by (rule tracks_new)

lemma tracks_op2: "tracks rd_ref (op2 f r1 r2) s (f (s ! r1) (s ! r2))"
  unfolding op2_def by (rule tracks_new)

lemma tracks_ret: "rd s x = Some t \<Longrightarrow> tracks rd (ret x) s (Inr t)"
  by (simp add: tracks_def ret_def)

lemma tracks_bind:
  assumes "tracks rd m s v"
    and "\<And>x t ext. fst (m s) = Inr x \<Longrightarrow> snd (m s) = s @ ext \<Longrightarrow> rd (s @ ext) x = Some t \<Longrightarrow>
           v = Inr t \<Longrightarrow> tracks rd' (f x) (s @ ext) (g t)"
  shows "tracks rd' (bind_st m f) s (bind_err v g)"
proof (cases v)
  case (Inl e)
  with assms(1) show ?thesis
    by (cases "m s") (auto simp: tracks_def bind_st_def)
next
  case (Inr t)
  with assms(1) obtain x ext where m: "fst (m s) = Inr x" "snd (m s) = s @ ext"
      "rd (s @ ext) x = Some t"
    by (auto simp: tracks_def)
  from assms(2) [OF m Inr] have res: "tracks rd' (f x) (s @ ext) (g t)" .
  have eq: "bind_st m f s = f x (s @ ext)"
    using m by (cases "m s") (simp add: bind_st_def)
  from res show ?thesis unfolding Inr by (cases "g t") (auto simp: tracks_def eq)
qed

lemma agrees_bind:
  assumes "tracks rd m s v"
    and "\<And>x t ext. fst (m s) = Inr x \<Longrightarrow> snd (m s) = s @ ext \<Longrightarrow> rd (s @ ext) x = Some t \<Longrightarrow>
           v = Inr t \<Longrightarrow> agrees (f x) (s @ ext) (g t)"
  shows "agrees (bind_st m f) s (bind_err v g)"
proof (cases v)
  case (Inl e)
  with assms(1) show ?thesis
    by (cases "m s") (auto simp: tracks_def agrees_def bind_st_def)
next
  case (Inr t)
  with assms(1) obtain x ext where m: "fst (m s) = Inr x" "snd (m s) = s @ ext"
      "rd (s @ ext) x = Some t"
    by (auto simp: tracks_def)
  from assms(2) [OF m Inr] have res: "agrees (f x) (s @ ext) (g t)" .
  have eq: "bind_st m f s = f x (s @ ext)"
    using m by (cases "m s") (simp add: bind_st_def)
  from res show ?thesis unfolding Inr by (cases "g t") (auto simp: agrees_def eq)
qed

lemma rd_ref_SomeD: "rd_ref s r = Some t \<Longrightarrow> r < length s \<and> s ! r = t"
  by (auto simp: rd_ref_def split: if_splits)

lemma tracks_expand_time_channel_st:
  "tc < length s \<Longrightarrow> tracks rd_ref (expand_time_channel_st b tc) s (expand_time_channel b (s ! tc))"
proof (induction b arbitrary: tc s)
  case Nil
  have "expand_time_channel_st [] tc = ret tc" by (rule ext) simp
  with Nil show ?case by (simp add: tracks_ret rd_ref_def)
next
  case (Cons n b)
  have unf: "expand_time_channel_st (n # b) tc =
      bind_st (op1 (unsqueeze 0) tc) (\<lambda>u.
      bind_st (\<lambda>s'. new_tensor (expand (n # shape (s' ! tc)) (s' ! u)) s') (\<lambda>tc' s'.
        expand_time_channel_st b tc' s'))"
    by (rule ext) (simp add: op1_def)
  have pure: "expand_time_channel (n # b) (s ! tc) =
      bind_err (unsqueeze 0 (s ! tc)) (\<lambda>u.
      bind_err (expand (n # shape (s ! tc)) u) (\<lambda>tc'. expand_time_channel b tc'))"
    by simp
  show ?case
    unfolding unf pure
  proof (rule tracks_bind [OF tracks_op1])
    fix x t ext
    assume x: "rd_ref (s @ ext) x = Some t"
    let ?s = "s @ ext"
    have tcv: "?s ! tc = s ! tc" using Cons.prems by (simp add: nth_append)
    have xv: "?s ! x = t" using rd_ref_SomeD [OF x] by simp
    have step: "tracks rd_ref (\<lambda>s'. new_tensor (expand (n # shape (s' ! tc)) (s' ! x)) s') ?s
        (expand (n # shape (s ! tc)) t)"
      using tracks_new [of "\<lambda>s'. expand (n # shape (s' ! tc)) (s' ! x)" ?s] tcv xv by simp
    show "tracks rd_ref
        (bind_st (\<lambda>s'. new_tensor (expand (n # shape (s' ! tc)) (s' ! x)) s')
           (\<lambda>tc' s'. expand_time_channel_st b tc' s')) ?s
        (bind_err (expand (n # shape (s ! tc)) t) (\<lambda>tc'. expand_time_channel b tc'))"
    proof (rule tracks_bind [OF step])
      fix y u ext'
      assume "rd_ref (?s @ ext') y = Some u"
      from rd_ref_SomeD [OF this] Cons.IH [of y "?s @ ext'"]
      show "tracks rd_ref (\<lambda>s'. expand_time_channel_st b y s') (?s @ ext') (expand_time_channel b u)"
        by simp
    qed
  qed
qed

lemma extends_append [simp]: "extends s (s @ ext)"
  by (auto simp: extends_def)

lemma extends_trans: "extends s s' \<Longrightarrow> extends s' s'' \<Longrightarrow> extends s s''"
  by (auto simp: extends_def)

lemma extends_nth: "extends s s' \<Longrightarrow> r < length s \<Longrightarrow> s' ! r = s ! r \<and> r < length s'"
  by (auto simp: extends_def nth_append)

lemma tracks_bindE:
  assumes "tracks rd m s v"
    and "\<And>x t s'. extends s s' \<Longrightarrow> rd s' x = Some t \<Longrightarrow> tracks rd' (f x) s' (g t)"
  shows "tracks rd' (bind_st m f) s (bind_err v g)"
  using assms(1)
proof (rule tracks_bind)
  fix x t ext
  assume "rd (s @ ext) x = Some t"
  then show "tracks rd' (f x) (s @ ext) (g t)" by (intro assms(2)) simp_all
qed

lemma agrees_bindE:
  assumes "tracks rd m s v"
    and "\<And>x t s'. extends s s' \<Longrightarrow> rd s' x = Some t \<Longrightarrow> agrees (f x) s' (g t)"
  shows "agrees (bind_st m f) s (bind_err v g)"
  using assms(1)
proof (rule agrees_bind)
  fix x t ext
  assume "rd (s @ ext) x = Some t"
  then show "agrees (f x) (s @ ext) (g t)" by (intro assms(2)) simp_all
qed

lemma tracks_at: "m s = m' s \<Longrightarrow> tracks rd m' s v \<Longrightarrow> tracks rd m s v"
  by (cases v) (simp_all add: tracks_def)

lemma tracks_read:
  "g s = v \<Longrightarrow> tracks rd_ref (\<lambda>s'. new_tensor (g s') s') s v"
  using tracks_new [of g s] by simp

lemma tracks_augment_time_st:
  assumes v: "tgrid < length s" "path1 < length s" "path2 < length s"
  shows "tracks rd_pair (augment_time_st tgrid path1 path2) s
           (augment_time (s ! tgrid) (s ! path1) (s ! path2))"
  unfolding augment_time_st_def augment_time_def
proof (rule tracks_bindE [OF tracks_op1])
  fix tc tcv s1
  assume e1: "extends s s1" and tc: "rd_ref s1 tc = Some tcv"
  note tc' = rd_ref_SomeD [OF tc]
  have p1: "s1 ! path1 = s ! path1" using extends_nth [OF e1 v(2)] by simp
  have t1: "tracks rd_ref (\<lambda>s. expand_time_channel_st (batch_dims (s ! path1)) tc s) s1
      (expand_time_channel (batch_dims (s ! path1)) tcv)"
  proof (rule tracks_at)
    show "tracks rd_ref (expand_time_channel_st (batch_dims (s ! path1)) tc) s1
        (expand_time_channel (batch_dims (s ! path1)) tcv)"
      using tracks_expand_time_channel_st [of tc s1 "batch_dims (s ! path1)"] tc' by simp
  qed (simp add: p1)
  show "tracks rd_pair
      (bind_st (\<lambda>s. expand_time_channel_st (batch_dims (s ! path1)) tc s) (\<lambda>time_channel1.
       bind_st (\<lambda>s. expand_time_channel_st (batch_dims (s ! path2)) tc s) (\<lambda>time_channel2.
       bind_st (op2 cat_last time_channel1 path1) (\<lambda>p1.
       bind_st (op2 cat_last time_channel2 path2) (\<lambda>p2. ret (p1, p2)))))) s1
      (bind_err (expand_time_channel (batch_dims (s ! path1)) tcv) (\<lambda>time_channel1.
       bind_err (expand_time_channel (batch_dims (s ! path2)) tcv) (\<lambda>time_channel2.
       bind_err (cat_last time_channel1 (s ! path1)) (\<lambda>p1.
       bind_err (cat_last time_channel2 (s ! path2)) (\<lambda>p2. Inr (p1, p2))))))"
  proof (rule tracks_bindE [OF t1])
    fix c1 c1v s2
    assume e2: "extends s1 s2" and c1: "rd_ref s2 c1 = Some c1v"
    note e02 = extends_trans [OF e1 e2]
    have p2: "s2 ! path2 = s ! path2" using extends_nth [OF e02 v(3)] by simp
    have tc2: "tc < length s2" "s2 ! tc = tcv" using extends_nth [OF e2, of tc] tc' by simp_all
    have t2: "tracks rd_ref (\<lambda>s. expand_time_channel_st (batch_dims (s ! path2)) tc s) s2
        (expand_time_channel (batch_dims (s ! path2)) tcv)"
    proof (rule tracks_at)
      show "tracks rd_ref (expand_time_channel_st (batch_dims (s ! path2)) tc) s2
          (expand_time_channel (batch_dims (s ! path2)) tcv)"
        using tracks_expand_time_channel_st [of tc s2 "batch_dims (s ! path2)"] tc2 by simp
    qed (simp add: p2)
    show "tracks rd_pair
        (bind_st (\<lambda>s. expand_time_channel_st (batch_dims (s ! path2)) tc s) (\<lambda>time_channel2.
         bind_st (op2 cat_last c1 path1) (\<lambda>p1.
         bind_st (op2 cat_last time_channel2 path2) (\<lambda>p2. ret (p1, p2))))) s2
        (bind_err (expand_time_channel (batch_dims (s ! path2)) tcv) (\<lambda>time_channel2.
         bind_err (cat_last c1v (s ! path1)) (\<lambda>p1.
         bind_err (cat_last time_channel2 (s ! path2)) (\<lambda>p2. Inr (p1, p2)))))"
    proof (rule tracks_bindE [OF t2])
      fix c2 c2v s3
      assume e3: "extends s2 s3" and c2: "rd_ref s3 c2 = Some c2v"
      note e03 = extends_trans [OF e02 e3]
      have c1': "s3 ! c1 = c1v" using extends_nth [OF e3, of c1] rd_ref_SomeD [OF c1] by simp
      have p13: "s3 ! path1 = s ! path1" using extends_nth [OF e03 v(2)] by simp
      have t3: "tracks rd_ref (op2 cat_last c1 path1) s3 (cat_last c1v (s ! path1))"
        using tracks_op2 [of cat_last c1 path1 s3] c1' p13 by simp
      show "tracks rd_pair
          (bind_st (op2 cat_last c1 path1) (\<lambda>p1.
           bind_st (op2 cat_last c2 path2) (\<lambda>p2. ret (p1, p2)))) s3
          (bind_err (cat_last c1v (s ! path1)) (\<lambda>p1.
           bind_err (cat_last c2v (s ! path2)) (\<lambda>p2. Inr (p1, p2))))"
      proof (rule tracks_bindE [OF t3])
        fix q1 q1v s4
        assume e4: "extends s3 s4" and q1: "rd_ref s4 q1 = Some q1v"
        note e04 = extends_trans [OF e03 e4]
        have c2': "s4 ! c2 = c2v" using extends_nth [OF e4, of c2] rd_ref_SomeD [OF c2] by simp
        have p24: "s4 ! path2 = s ! path2" using extends_nth [OF e04 v(3)] by simp
        have t4: "tracks rd_ref (op2 cat_last c2 path2) s4 (cat_last c2v (s ! path2))"
          using tracks_op2 [of cat_last c2 path2 s4] c2' p24 by simp
        show "tracks rd_pair
            (bind_st (op2 cat_last c2 path2) (\<lambda>p2. ret (q1, p2))) s4
            (bind_err (cat_last c2v (s ! path2)) (\<lambda>p2. Inr (q1v, p2)))"
        proof (rule tracks_bindE [OF t4])
          fix q2 q2v s5
          assume e5: "extends s4 s5" and q2: "rd_ref s5 q2 = Some q2v"
          have "rd_pair s5 (q1, q2) = Some (q1v, q2v)"
            using extends_nth [OF e5, of q1] rd_ref_SomeD [OF q1] rd_ref_SomeD [OF q2]
            by (simp add: rd_pair_def)
          then show "tracks rd_pair (ret (q1, q2)) s5 (Inr (q1v, q2v))"
            by (rule tracks_ret)
        qed
      qed
    qed
  qed
qed

lemma bind_err_assoc: "bind_err (bind_err a f) g = bind_err a (\<lambda>x. bind_err (f x) g)"
  by (cases a) (simp_all add: bind_err_def)

lemma pairwise_diff_steps:
  "bind_err (pairwise_diff b1 b2 ls1 ls2) k =
     bind_err (view_batch b1 ls1) (\<lambda>l1.
     bind_err (view_batch b2 ls2) (\<lambda>l2.
     bind_err (unsqueeze_loop 0 b1 l2) (\<lambda>u2.
     bind_err (unsqueeze_loop (- 2) b2 l1) (\<lambda>u1.
     bind_err (expand_pair b1 b2 u1 u1) (\<lambda>e1.
     bind_err (expand_pair b1 b2 e1 u2) (\<lambda>e2.
     bind_err (tensor_sub e1 e2) k))))))"
  by (simp add: pairwise_diff_def view_batch_def expand_pair_def bind_err_assoc)

lemma agrees_at: "m s = m' s \<Longrightarrow> agrees m' s v \<Longrightarrow> agrees m s v"
  by (cases v) (simp_all add: agrees_def)

lemma agrees_bind_op1:
  assumes "f (s ! r) = w"
    and "\<And>v. w = Inr v \<Longrightarrow> agrees (K (length s)) (s @ [v]) (G v)"
  shows "agrees (bind_st (op1 f r) K) s (bind_err w G)"
proof (cases w)
  case (Inl e)
  with assms(1) show ?thesis
    by (simp add: agrees_def bind_st_def op1_def new_tensor_def)
next
  case (Inr v)
  from assms(2) [OF Inr] have res: "agrees (K (length s)) (s @ [v]) (G v)" .
  have eq: "bind_st (op1 f r) K s = K (length s) (s @ [v])"
    using assms(1) Inr by (simp add: bind_st_def op1_def new_tensor_def)
  from res show ?thesis unfolding Inr by (cases "G v") (auto simp: agrees_def eq bind_err_def)
qed

lemma agrees_bind_op2:
  assumes "f (s ! r1) (s ! r2) = w"
    and "\<And>v. w = Inr v \<Longrightarrow> agrees (K (length s)) (s @ [v]) (G v)"
  shows "agrees (bind_st (op2 f r1 r2) K) s (bind_err w G)"
proof (cases w)
  case (Inl e)
  with assms(1) show ?thesis
    by (simp add: agrees_def bind_st_def op2_def new_tensor_def)
next
  case (Inr v)
  from assms(2) [OF Inr] have res: "agrees (K (length s)) (s @ [v]) (G v)" .
  have eq: "bind_st (op2 f r1 r2) K s = K (length s) (s @ [v])"
    using assms(1) Inr by (simp add: bind_st_def op2_def new_tensor_def)
  from res show ?thesis unfolding Inr by (cases "G v") (auto simp: agrees_def eq bind_err_def)
qed

lemma unsqueeze_loop_st_result:
  "r < length s \<Longrightarrow>
   (case unsqueeze_loop d b (s ! r) of
      Inl e \<Rightarrow> fst (unsqueeze_loop_st d b r s) = Inl e
    | Inr t \<Rightarrow> unsqueeze_loop_st d b r s = (Inr (), s[r := t]))"
proof (induction b arbitrary: s)
  case Nil
  then show ?case by (simp add: ret_def)
next
  case (Cons k b)
  show ?case
  proof (cases "unsqueeze d (s ! r)")
    case (Inl e)
    then show ?thesis by (simp add: bind_st_def unsqueeze_inplace_def)
  next
    case (Inr t)
    have "r < length (s[r := t])" using Cons.prems by simp
    from Cons.IH [OF this] Cons.prems Inr show ?thesis
      by (cases "unsqueeze_loop d b t") (simp_all add: bind_st_def unsqueeze_inplace_def)
  qed
qed

lemma agrees_bind_loop:
  assumes "r < length s" and "unsqueeze_loop d b (s ! r) = w"
    and "\<And>t. w = Inr t \<Longrightarrow> agrees (K ()) (s[r := t]) (G t)"
  shows "agrees (bind_st (unsqueeze_loop_st d b r) K) s (bind_err w G)"
proof (cases w)
  case (Inl e)
  with unsqueeze_loop_st_result [OF assms(1), of d b] assms(2) show ?thesis
    by (cases "unsqueeze_loop_st d b r s") (simp add: agrees_def bind_st_def)
next
  case (Inr t)
  from assms(3) [OF Inr] have res: "agrees (K ()) (s[r := t]) (G t)" .
  have eq: "bind_st (unsqueeze_loop_st d b r) K s = K () (s[r := t])"
    using unsqueeze_loop_st_result [OF assms(1), of d b] assms(2) Inr by (simp add: bind_st_def)
  from res show ?thesis unfolding Inr by (cases "G t") (auto simp: agrees_def eq bind_err_def)
qed

lemma agrees_last_op1: "f (s ! r) = w \<Longrightarrow> agrees (op1 f r) s w"
  using tracks_agrees [OF tracks_op1, of f r s] by simp

lemma agrees_bind_pseudometric:
  assumes "apply_pseudometric (self\<lparr>linear := map_option (\<lambda>r. s ! r) lin\<rparr>) (s ! x) = w"
    and "x < length s"
    and "\<And>v y s'. w = Inr v \<Longrightarrow> y < length s' \<Longrightarrow> s' ! y = v \<Longrightarrow> agrees (K y) s' (G v)"
  shows "agrees (bind_st (apply_pseudometric_st self lin x) K) s (bind_err w G)"
proof (cases "pseudometric self")
  case False
  then have w: "w = Inr (s ! x)" using assms(1) by (simp add: apply_pseudometric_def)
  have eq: "bind_st (apply_pseudometric_st self lin x) K s = K x s"
    using False by (simp add: apply_pseudometric_st_def bind_st_def ret_def)
  from assms(3) [OF w assms(2) refl] show ?thesis
    unfolding w by (cases "G (s ! x)") (auto simp: agrees_def eq bind_err_def)
next
  case True
  define g where "g = (if metric_type self = ''general'' then matmul else mul)"
  have st: "apply_pseudometric_st self lin x s
      = new_tensor (g (s ! x) (map_option (\<lambda>r. s ! r) lin)) s"
    using True by (simp add: apply_pseudometric_st_def g_def)
  have pu: "w = g (s ! x) (map_option (\<lambda>r. s ! r) lin)"
    using True assms(1) by (auto simp: apply_pseudometric_def g_def)
  show ?thesis
  proof (cases w)
    case (Inl e)
    have ge: "g (s ! x) (map_option (\<lambda>r. s ! r) lin) = Inl e" using pu Inl by simp
    show ?thesis unfolding Inl by (simp add: agrees_def bind_st_def st ge new_tensor_def)
  next
    case (Inr v)
    have res: "agrees (K (length s)) (s @ [v]) (G v)"
      by (rule assms(3) [OF Inr]) simp_all
    have ge: "g (s ! x) (map_option (\<lambda>r. s ! r) lin) = Inr v" using pu Inr by simp
    have eq: "bind_st (apply_pseudometric_st self lin x) K s = K (length s) (s @ [v])"
      by (simp add: bind_st_def st ge new_tensor_def)
    from res show ?thesis unfolding Inr by (cases "G v") (auto simp: agrees_def eq bind_err_def)
  qed
qed

lemma forward_steps:
  "forward self tv p1v p2v =
     bind_err (if include_time self then augment_time tv p1v p2v else Inr (p1v, p2v)) (\<lambda>(q1, q2).
     bind_err (flatten_batch q1) (\<lambda>f1.
     bind_err (flatten_batch q2) (\<lambda>f2.
     bind_err (logsignature self f1) (\<lambda>ls1.
     bind_err (logsignature self f2) (\<lambda>ls2.
     bind_err (view_batch (batch_dims p1v) ls1) (\<lambda>l1.
     bind_err (view_batch (batch_dims p2v) ls2) (\<lambda>l2.
     bind_err (unsqueeze_loop 0 (batch_dims p1v) l2) (\<lambda>u2.
     bind_err (unsqueeze_loop (- 2) (batch_dims p2v) l1) (\<lambda>u1.
     bind_err (expand_pair (batch_dims p1v) (batch_dims p2v) u1 u1) (\<lambda>e1.
     bind_err (expand_pair (batch_dims p1v) (batch_dims p2v) e1 u2) (\<lambda>e2.
     bind_err (tensor_sub e1 e2) (\<lambda>d.
     bind_err (apply_pseudometric self d) (\<lambda>d'. norm_last (p_exp self) d')))))))))))))"
  by (simp add: forward_def Let_def pairwise_diff_steps)

lemma forward_st_after_augment:
  assumes q: "q1 < length S" "q2 < length S"
    and lin: "\<And>S'. extends S S' \<Longrightarrow> map_option (\<lambda>r. S' ! r) lin = lv"
  shows "agrees
     (bind_st (op1 flatten_batch q1) (\<lambda>path1.
      bind_st (op1 flatten_batch q2) (\<lambda>path2.
      bind_st (op1 (logsignature self) path1) (\<lambda>logsignature1.
      bind_st (op1 (logsignature self) path2) (\<lambda>logsignature2.
      bind_st (op1 (view_batch b1) logsignature1) (\<lambda>logsignature1.
      bind_st (op1 (view_batch b2) logsignature2) (\<lambda>logsignature2.
      bind_st (unsqueeze_loop_st 0 b1 logsignature2) (\<lambda>_.
      bind_st (unsqueeze_loop_st (- 2) b2 logsignature1) (\<lambda>_.
      bind_st (op2 (expand_pair b1 b2) logsignature1 logsignature1) (\<lambda>logsignature1.
      bind_st (op2 (expand_pair b1 b2) logsignature1 logsignature2) (\<lambda>logsignature2.
      bind_st (op2 tensor_sub logsignature1 logsignature2) (\<lambda>logsignature_diff.
      bind_st (apply_pseudometric_st self lin logsignature_diff) (\<lambda>logsignature_diff.
      op1 (norm_last (p_exp self)) logsignature_diff))))))))))))) S
     (bind_err (flatten_batch (S ! q1)) (\<lambda>f1.
      bind_err (flatten_batch (S ! q2)) (\<lambda>f2.
      bind_err (logsignature self f1) (\<lambda>ls1.
      bind_err (logsignature self f2) (\<lambda>ls2.
      bind_err (view_batch b1 ls1) (\<lambda>l1.
      bind_err (view_batch b2 ls2) (\<lambda>l2.
      bind_err (unsqueeze_loop 0 b1 l2) (\<lambda>u2.
      bind_err (unsqueeze_loop (- 2) b2 l1) (\<lambda>u1.
      bind_err (expand_pair b1 b2 u1 u1) (\<lambda>e1.
      bind_err (expand_pair b1 b2 e1 u2) (\<lambda>e2.
      bind_err (tensor_sub e1 e2) (\<lambda>d.
      bind_err (apply_pseudometric (self\<lparr>linear := lv\<rparr>) d) (\<lambda>d'.
      norm_last (p_exp self) d')))))))))))))"
proof -
  have ext: "extends S (((((((((S @ [f1]) @ [f2]) @ [g1]) @ [g2]) @ [l1]) @ [l2])
      [i := u2, j := u1] @ [e1]) @ [e2]) @ [d])"
    if "length S \<le> i" "length S \<le> j" for f1 f2 g1 g2 l1 l2 i j u1 u2 e1 e2 d
  proof -
    have "((((((S @ [f1]) @ [f2]) @ [g1]) @ [g2]) @ [l1]) @ [l2]) [i := u2, j := u1]
        = S @ ([f1, f2, g1, g2, l1, l2] [i - length S := u2, j - length S := u1])"
      using that by (simp add: list_update_append)
    then show ?thesis by (simp add: extends_def)
  qed
  show ?thesis
    apply (rule agrees_bind_op1, rule refl)
    apply (rule agrees_bind_op1, simp add: nth_append q)
    apply (rule agrees_bind_op1, simp add: nth_append)
    apply (rule agrees_bind_op1, simp add: nth_append)
    apply (rule agrees_bind_op1, simp add: nth_append)
    apply (rule agrees_bind_op1, simp add: nth_append)
    apply (rule agrees_bind_loop, simp, simp add: nth_append)
    apply (rule agrees_bind_loop, simp, simp add: nth_append)
    apply (rule agrees_bind_op2, simp add: nth_append)
    apply (rule agrees_bind_op2, simp add: nth_append)
    apply (rule agrees_bind_op2, simp add: nth_append)
    apply (rule agrees_bind_pseudometric)
      apply (subst lin)
       apply (rule ext; simp)
      apply (simp add: nth_append)
     apply simp
    apply (rule agrees_last_op1)
    apply simp
    done
qed



text \<open>
  On a store that holds the time grid, the two paths and the parameter, the call on
  the store raises the error that \<^verbatim>\<open>forward\<close> raises on their values, or returns a
  reference to an object equal to the tensor that \<^verbatim>\<open>forward\<close> returns.
\<close>

theorem forward_st_refines:
  assumes v: "tgrid < length s" "path1 < length s" "path2 < length s"
    and l: "\<forall>r. lin = Some r \<longrightarrow> r < length s"
  shows "case forward (self\<lparr>linear := map_option (\<lambda>r. s ! r) lin\<rparr>)
                (s ! tgrid) (s ! path1) (s ! path2) of
           Inl e \<Rightarrow> fst (forward_st self lin tgrid path1 path2 s) = Inl e
         | Inr t \<Rightarrow>
             (\<exists>r. fst (forward_st self lin tgrid path1 path2 s) = Inr r \<and>
                  r < length (snd (forward_st self lin tgrid path1 path2 s)) \<and>
                  snd (forward_st self lin tgrid path1 path2 s) ! r = t)"
proof -
  let ?lv = "map_option (\<lambda>r. s ! r) lin"
  let ?b1 = "batch_dims (s ! path1)" and ?b2 = "batch_dims (s ! path2)"
  let ?K = "\<lambda>q1 q2.
      bind_st (op1 flatten_batch q1) (\<lambda>path1.
      bind_st (op1 flatten_batch q2) (\<lambda>path2.
      bind_st (op1 (logsignature self) path1) (\<lambda>logsignature1.
      bind_st (op1 (logsignature self) path2) (\<lambda>logsignature2.
      bind_st (op1 (view_batch ?b1) logsignature1) (\<lambda>logsignature1.
      bind_st (op1 (view_batch ?b2) logsignature2) (\<lambda>logsignature2.
      bind_st (unsqueeze_loop_st 0 ?b1 logsignature2) (\<lambda>_.
      bind_st (unsqueeze_loop_st (- 2) ?b2 logsignature1) (\<lambda>_.
      bind_st (op2 (expand_pair ?b1 ?b2) logsignature1 logsignature1) (\<lambda>logsignature1.
      bind_st (op2 (expand_pair ?b1 ?b2) logsignature1 logsignature2) (\<lambda>logsignature2.
      bind_st (op2 tensor_sub logsignature1 logsignature2) (\<lambda>logsignature_diff.
      bind_st (apply_pseudometric_st self lin logsignature_diff) (\<lambda>logsignature_diff.
      op1 (norm_last (p_exp self)) logsignature_diff))))))))))))"
  let ?G = "\<lambda>q1 q2.
      bind_err (flatten_batch q1) (\<lambda>f1.
      bind_err (flatten_batch q2) (\<lambda>f2.
      bind_err (logsignature self f1) (\<lambda>ls1.
      bind_err (logsignature self f2) (\<lambda>ls2.
      bind_err (view_batch ?b1 ls1) (\<lambda>l1.
      bind_err (view_batch ?b2 ls2) (\<lambda>l2.
      bind_err (unsqueeze_loop 0 ?b1 l2) (\<lambda>u2.
      bind_err (unsqueeze_loop (- 2) ?b2 l1) (\<lambda>u1.
      bind_err (expand_pair ?b1 ?b2 u1 u1) (\<lambda>e1.
      bind_err (expand_pair ?b1 ?b2 e1 u2) (\<lambda>e2.
      bind_err (tensor_sub e1 e2) (\<lambda>d.
      bind_err (apply_pseudometric (self\<lparr>linear := ?lv\<rparr>) d) (\<lambda>d'.
      norm_last (p_exp self) d'))))))))))))"
  let ?A = "if include_time self then augment_time_st tgrid path1 path2 else ret (path1, path2)"
  let ?Av = "if include_time self then augment_time (s ! tgrid) (s ! path1) (s ! path2)
             else Inr (s ! path1, s ! path2)"
  have st: "forward_st self lin tgrid path1 path2 s = bind_st ?A (\<lambda>(q1, q2). ?K q1 q2) s"
    by (simp add: forward_st_def Let_def)
  have pu: "forward (self\<lparr>linear := ?lv\<rparr>) (s ! tgrid) (s ! path1) (s ! path2)
      = bind_err ?Av (\<lambda>(q1, q2). ?G q1 q2)"
    by (simp add: forward_steps)
  have aug: "tracks rd_pair ?A s ?Av"
    using tracks_augment_time_st [OF v] v by (auto intro: tracks_ret simp: rd_pair_def)
  have "agrees (bind_st ?A (\<lambda>(q1, q2). ?K q1 q2)) s (bind_err ?Av (\<lambda>(q1, q2). ?G q1 q2))"
  proof (rule agrees_bind [OF aug])
    fix x t ext
    assume rd: "rd_pair (s @ ext) x = Some t"
    obtain q1 q2 where x: "x = (q1, q2)" by (cases x)
    from rd x have q: "q1 < length (s @ ext)" "q2 < length (s @ ext)"
      and t: "t = ((s @ ext) ! q1, (s @ ext) ! q2)"
      by (auto simp: rd_pair_def split: if_splits)
    have lin: "map_option (\<lambda>r. S' ! r) lin = ?lv" if "extends (s @ ext) S'" for S'
    proof (cases lin)
      case None
      then show ?thesis by simp
    next
      case (Some r)
      with l have "r < length s" by simp
      with that Some show ?thesis by (auto simp: extends_def nth_append)
    qed
    show "agrees (case x of (q1, q2) \<Rightarrow> ?K q1 q2) (s @ ext) (case t of (q1, q2) \<Rightarrow> ?G q1 q2)"
      unfolding x t prod.case using q lin by (rule forward_st_after_augment)
  qed
  then have "agrees (forward_st self lin tgrid path1 path2) s
      (forward (self\<lparr>linear := ?lv\<rparr>) (s ! tgrid) (s ! path1) (s ! path2))"
    unfolding pu agrees_def st .
  then show ?thesis
    by (cases "forward (self\<lparr>linear := ?lv\<rparr>) (s ! tgrid) (s ! path1) (s ! path2)")
       (auto simp: agrees_def dest: rd_ref_SomeD)
qed

lemma forward_example:
  "forward \<lparr>in_channels = 1, pseudometric = False, metric_type = ''general'', depth = 1,
             p_exp = PosInf, include_time = True, linear = None,
             logsignature = Logsignature_call increment_signatory 1\<rparr>
     \<lparr>shape = [2], data = [0, 1]\<rparr>
     \<lparr>shape = [2, 2, 1], data = [0, 1, 0, 3]\<rparr>
     \<lparr>shape = [2, 1], data = [0, 5]\<rparr>
   = Inr \<lparr>shape = [2], data = [4, 2]\<rparr>"
  by code_simp

theorem forward_st_refines_witness:
  "\<exists>r. fst (forward_st \<lparr>in_channels = 1, pseudometric = False, metric_type = ''general'',
             depth = 1, p_exp = PosInf, include_time = True, linear = None,
             logsignature = Logsignature_call increment_signatory 1\<rparr> None 0 1 2
          [\<lparr>shape = [2], data = [0, 1]\<rparr>,
           \<lparr>shape = [2, 2, 1], data = [0, 1, 0, 3]\<rparr>,
           \<lparr>shape = [2, 1], data = [0, 5]\<rparr>]) = Inr r \<and>
        snd (forward_st \<lparr>in_channels = 1, pseudometric = False, metric_type = ''general'',
             depth = 1, p_exp = PosInf, include_time = True, linear = None,
             logsignature = Logsignature_call increment_signatory 1\<rparr> None 0 1 2
          [\<lparr>shape = [2], data = [0, 1]\<rparr>,
           \<lparr>shape = [2, 2, 1], data = [0, 1, 0, 3]\<rparr>,
           \<lparr>shape = [2, 1], data = [0, 5]\<rparr>]) ! r = \<lparr>shape = [2], data = [4, 2]\<rparr>"
  using forward_st_refines [of 0
      "[\<lparr>shape = [2], data = [0, 1]\<rparr>,
        \<lparr>shape = [2, 2, 1], data = [0, 1, 0, 3]\<rparr>,
        \<lparr>shape = [2, 1], data = [0, 5]\<rparr>]" 1 2 None
      "\<lparr>in_channels = 1, pseudometric = False, metric_type = ''general'',
             depth = 1, p_exp = PosInf, include_time = True, linear = None,
             logsignature = Logsignature_call increment_signatory 1\<rparr>"]
    forward_example
  by auto

end
